theory Spec2Isabelle
  imports Complex_Main "HOL-Library.Word" "HOL-Library.Log_Nat"
begin

unbundle bit_operations_syntax

section \<open>Values exchanged with the outside world\<close>

text \<open>
  The worker (\<^verbatim>\<open>src/unnamed/part_000\<close>) is a Cloudflare-style module with a
  \<^verbatim>\<open>scheduled\<close> and a \<^verbatim>\<open>fetch\<close> handler. Everything it decides depends on the
  wall clock and on the JSON bodies of four kinds of outbound requests. The model makes
  both explicit: the clock is part of the threaded state, and the answers of the remote
  services are fields of a \<open>world\<close> record.

  A \<^verbatim>\<open>Date\<close> that is valid is the number of milliseconds since the epoch.
\<close>

type_synonym instant = int

text \<open>
  A calendar date is kept as the number of whole days since 1970-01-01; the source holds
  its rendering \<^verbatim>\<open>YYYY-MM-DD\<close> (the part of \<^verbatim>\<open>toISOString()\<close> before the \<^verbatim>\<open>T\<close>), which
  names the same day.
\<close>

type_synonym civil_date = int

text \<open>
  JSON values as the code inspects them. A number is the rational it denotes (every
  finite double is one); \<open>JObject\<close> stands for any object or array, which is all the
  code can tell about one (it is truthy, and it is not \<^verbatim>\<open>=== 1\<close>).
\<close>

datatype js_value = JUndefined | JNull | JBool bool | JNum rat | JStr string | JObject

datatype js_error = TypeError string | SyntaxError string | RangeError string

primrec message :: "js_error \<Rightarrow> string" where
  "message (TypeError m) = m"
| "message (SyntaxError m) = m"
| "message (RangeError m) = m"

text \<open>An entry of the vendor's device list: \<^verbatim>\<open>{device, sku, deviceName}\<close>.\<close>

record device =
  device :: string
  sku :: string
  deviceName :: string

text \<open>
  An entry of \<^verbatim>\<open>payload.capabilities\<close>: \<^verbatim>\<open>{type, instance, state: {value}}\<close>.
  \<open>cap_state\<close> is \<open>None\<close> when the entry has no \<^verbatim>\<open>state\<close> (so that \<^verbatim>\<open>c.state?.value\<close>
  is \<^verbatim>\<open>undefined\<close>) and \<open>Some v\<close> when \<^verbatim>\<open>c.state.value\<close> evaluates to \<open>v\<close>.
  The two lists of the vendor's answers are arrays of objects.
\<close>

record capability =
  cap_type :: js_value
  cap_instance :: js_value
  cap_state :: "js_value option"

text \<open>
  A body of the sunrise-sunset answer on which lines 62 and 67 do not throw. \<open>sunset\<close>
  is the instant that \<^verbatim>\<open>new Date(sunsetData.results.sunset)\<close> denotes, \<open>None\<close> when
  that is an invalid date, on which \<^verbatim>\<open>toISOString()\<close> in line 71 throws a
  \<^verbatim>\<open>RangeError\<close>. (Where the status is not \<^verbatim>\<open>OK\<close> the field is never read.)
\<close>

record solar_data =
  status :: string
  sunset :: "instant option"

text \<open>
  The outbound requests: the sunset of a date at the fixed coordinates (lines 57 to 59),
  the listing \<^verbatim>\<open>/user/devices\<close>, the state of a device (\<^verbatim>\<open>/device/state\<close>), and the
  control request of a device (\<^verbatim>\<open>/device/control\<close>), whose capability is always
  \<^verbatim>\<open>on_off\<close>, \<^verbatim>\<open>powerSwitch\<close> with the given \<^verbatim>\<open>value\<close>.
\<close>

datatype request =
    SolarQuery civil_date
  | ListDevices
  | DeviceState device
  | DeviceControl device nat

text \<open>
  What the world answers during one invocation of a handler. \<open>Inl\<close> is a rejected
  \<^verbatim>\<open>fetch\<close> or a body that \<^verbatim>\<open>json()\<close> cannot read; for the solar answer it is
  also the \<^verbatim>\<open>TypeError\<close> of line 62 or line 67 on a body that is \<^verbatim>\<open>null\<close> or that has
  the status \<^verbatim>\<open>OK\<close> and no \<^verbatim>\<open>results\<close>: in each of these cases the evaluation throws
  the error after the solar request, with nothing written. For the two vendor answers,
  \<open>Inr None\<close> is a body without (a truthy) \<^verbatim>\<open>data\<close>, respectively without
  \<^verbatim>\<open>payload.capabilities\<close>. \<open>control\<close> says whether the control request of a device
  rejects. \<open>latency\<close> is the time in milliseconds until a request has settled and its body
  is read; the code's own computation takes no time. \<open>coerce\<close> is the host's
  \<^verbatim>\<open>ToNumber\<close> on strings and objects (\<open>None\<close> is \<^verbatim>\<open>NaN\<close>).
\<close>

record world =
  latency :: "request \<Rightarrow> nat"
  solar :: "civil_date \<Rightarrow> js_error + solar_data"
  directory :: "js_error + device list option"
  device_state :: "device \<Rightarrow> js_error + capability list option"
  control :: "device \<Rightarrow> nat \<Rightarrow> js_error option"
  coerce :: "js_value \<Rightarrow> rat option"

text \<open>One outbound request, with the instants at which it was issued and settled.\<close>

record call =
  request :: request
  issued :: instant
  settled :: instant

text \<open>
  The lines written to the console, in the order of the source: lines 12, 63, 71, 76,
  163, 184 and 186.
\<close>

datatype log_line =
    LightsOff
  | SunsetFetchFailed
  | SunsetInfo civil_date instant instant rat
  | LightsOnAtSunset
  | Found nat
  | Switched bool string
  | FailedToControl string js_error

text \<open>The state threaded through a handler: the clock, the requests made, the console.\<close>

record effects =
  clock :: instant
  calls :: "call list"
  console :: "log_line list"

definition say :: "log_line \<Rightarrow> effects \<Rightarrow> effects" where
  "say l s = s\<lparr>console := console s @ [l]\<rparr>"

text \<open>
  \<^verbatim>\<open>await fetch(...)\<close>, with the reading of the body where the code reads it: the
  request is issued now, and the caller resumes when it has settled.
\<close>

definition fetch :: "world \<Rightarrow> request \<Rightarrow> effects \<Rightarrow> effects" where
  "fetch w r s =
     s\<lparr>clock := clock s + int (latency w r),
       calls := calls s @ [\<lparr>request = r, issued = clock s,
                            settled = clock s + int (latency w r)\<rparr>]\<rparr>"

section \<open>JavaScript operators used by the status decoder\<close>

fun truthy :: "js_value \<Rightarrow> bool" where
  "truthy JUndefined = False"
| "truthy JNull = False"
| "truthy (JBool b) = b"
| "truthy (JNum q) = (q \<noteq> 0)"
| "truthy (JStr s) = (s \<noteq> [])"
| "truthy JObject = True"

text \<open>\<^verbatim>\<open>a || b\<close> and \<^verbatim>\<open>a ?? b\<close>.\<close>

definition or_else :: "js_value \<Rightarrow> js_value \<Rightarrow> js_value" where
  "or_else a b = (if truthy a then a else b)"

definition nullish_else :: "js_value \<Rightarrow> js_value \<Rightarrow> js_value" where
  "nullish_else a b = (if a = JUndefined \<or> a = JNull then b else a)"

text \<open>\<^verbatim>\<open>ToNumber\<close>; \<open>None\<close> is \<^verbatim>\<open>NaN\<close>.\<close>

fun ToNumber :: "(js_value \<Rightarrow> rat option) \<Rightarrow> js_value \<Rightarrow> rat option" where
  "ToNumber h JUndefined = None"
| "ToNumber h JNull = Some 0"
| "ToNumber h (JBool b) = Some (if b then 1 else 0)"
| "ToNumber h (JNum q) = Some q"
| "ToNumber h v = h v"

definition js_trunc :: "rat \<Rightarrow> int" where
  "js_trunc q = (if q < 0 then \<lceil>q\<rceil> else \<lfloor>q\<rfloor>)"

text \<open>\<^verbatim>\<open>ToInt32\<close>: \<^verbatim>\<open>NaN\<close> is 0, otherwise truncate and wrap into the signed 32 bits.\<close>

definition ToInt32 :: "rat option \<Rightarrow> int" where
  "ToInt32 n = (case n of None \<Rightarrow> 0 | Some q \<Rightarrow> signed_take_bit 31 (js_trunc q))"

text \<open>
  The color object \<^verbatim>\<open>{r, g, b}\<close> of lines 122 to 126. \<^verbatim>\<open>>>\<close> is the sign-propagating
  shift of the 32-bit value, which on \<open>int\<close> is \<open>drop_bit\<close>.
\<close>

datatype rgb = Rgb int int int

definition rgb_of :: "(js_value \<Rightarrow> rat option) \<Rightarrow> js_value \<Rightarrow> rgb" where
  "rgb_of h colorInt =
     (let i = ToInt32 (ToNumber h colorInt)
      in Rgb (drop_bit 16 i AND 255) (drop_bit 8 i AND 255) (i AND 255))"

text \<open>
  The control surface packs a color for the \<^verbatim>\<open>colorRgb\<close> capability
  (\<^verbatim>\<open>setColorAll\<close> in \<^verbatim>\<open>src/web-ui/src/App.jsx\<close>, line 108):
  \<^verbatim>\<open>(rgb[0] << 16) + (rgb[1] << 8) + rgb[2]\<close>.
\<close>

fun pack_rgb :: "rgb \<Rightarrow> int" where
  "pack_rgb (Rgb r g b) = signed_take_bit 31 (push_bit 16 r) + signed_take_bit 31 (push_bit 8 g) + b"

section \<open>Decoding one device's capabilities\<close>

text \<open>\<^verbatim>\<open>x?.state?.value\<close> for the result \<open>x\<close> of \<^verbatim>\<open>capabilities.find(...)\<close>.\<close>

definition state_value :: "capability option \<Rightarrow> js_value" where
  "state_value x =
     (case x of None \<Rightarrow> JUndefined
      | Some c \<Rightarrow> (case cap_state c of None \<Rightarrow> JUndefined | Some v \<Rightarrow> v))"

datatype power = ON | OFF

text \<open>
  An element of the \<^verbatim>\<open>devices\<close> array of the status report: the decoded object of
  lines 129 to 136, or the object of lines 138 to 142 with an \<^verbatim>\<open>error\<close> field.
\<close>

datatype device_status =
    Status string string power js_value "rgb option" js_value
  | StatusError string string string

fun power_of :: "device_status \<Rightarrow> power option" where
  "power_of (Status n k p br c sc) = Some p"
| "power_of (StatusError n k e) = None"

fun brightness_of :: "device_status \<Rightarrow> js_value option" where
  "brightness_of (Status n k p br c sc) = Some br"
| "brightness_of (StatusError n k e) = None"

fun color_of :: "device_status \<Rightarrow> rgb option option" where
  "color_of (Status n k p br c sc) = Some c"
| "color_of (StatusError n k e) = None"

fun scene_of :: "device_status \<Rightarrow> js_value option" where
  "scene_of (Status n k p br c sc) = Some sc"
| "scene_of (StatusError n k e) = None"

fun error_of :: "device_status \<Rightarrow> string option" where
  "error_of (Status n k p br c sc) = None"
| "error_of (StatusError n k e) = Some e"

text \<open>Lines 112 to 136: the status object built from a device and its capabilities.\<close>

definition decode :: "(js_value \<Rightarrow> rat option) \<Rightarrow> device \<Rightarrow> capability list \<Rightarrow> device_status" where
  "decode h d capabilities =
     (let powerState = find (\<lambda>c. cap_type c = JStr ''devices.capabilities.on_off'') capabilities;
          brightnessState = find (\<lambda>c. cap_type c = JStr ''devices.capabilities.range''
                                      \<and> cap_instance c = JStr ''brightness'') capabilities;
          colorState = find (\<lambda>c. cap_instance c = JStr ''colorRgb'') capabilities;
          sceneState = find (\<lambda>c. cap_instance c = JStr ''lightScene'') capabilities;
          colorInt = state_value colorState;
          rgb = (if colorInt \<noteq> JNull \<and> colorInt \<noteq> JUndefined
                 then Some (rgb_of h colorInt) else None)
      in Status (deviceName d) (sku d)
           (if state_value powerState = JNum 1 then ON else OFF)
           (nullish_else (state_value brightnessState) JNull)
           rgb
           (or_else (state_value sceneState) JNull))"

section \<open>The dispatcher: \<^verbatim>\<open>controlAllLights\<close>\<close>

text \<open>
  The loop of lines 166 to 188. Each turn awaits its control request before the next turn
  starts; a request that rejects is caught in the turn and reported on the console.
\<close>

fun control_loop :: "world \<Rightarrow> bool \<Rightarrow> device list \<Rightarrow> effects \<Rightarrow> effects" where
  "control_loop w turnOn [] s = s"
| "control_loop w turnOn (d # ds) s =
     (let v = (if turnOn then 1 else 0);
          s1 = fetch w (DeviceControl d v) s;
          s2 = (case control w d v of
                  None \<Rightarrow> say (Switched turnOn (deviceName d)) s1
                | Some err \<Rightarrow> say (FailedToControl (deviceName d) err) s1)
      in control_loop w turnOn ds s2)"

text \<open>\<^verbatim>\<open>devicesData.data || []\<close>.\<close>

definition data_or_empty :: "device list option \<Rightarrow> device list" where
  "data_or_empty devicesData = (case devicesData of None \<Rightarrow> [] | Some ds \<Rightarrow> ds)"

text \<open>
  The function has no \<^verbatim>\<open>return\<close>: when it does not throw, its promise resolves to
  \<^verbatim>\<open>undefined\<close>. The listing of the devices is outside the \<^verbatim>\<open>try\<close>, so its failure
  is thrown to the caller.
\<close>

definition controlAllLights :: "world \<Rightarrow> bool \<Rightarrow> effects \<Rightarrow> (js_error + js_value) \<times> effects" where
  "controlAllLights w turnOn s =
     (let s1 = fetch w ListDevices s
      in case directory w of
           Inl err \<Rightarrow> (Inl err, s1)
         | Inr devicesData \<Rightarrow>
             (let devices = data_or_empty devicesData;
                  s2 = say (Found (length devices)) s1
              in (Inr JUndefined, control_loop w turnOn devices s2)))"

section \<open>The sunset evaluator: \<^verbatim>\<open>checkSunsetAndTurnOn\<close>\<close>

text \<open>Lines 46 to 52: the calendar date at seven hours behind UTC.\<close>

definition getDenverDate :: "instant \<Rightarrow> civil_date" where
  "getDenverDate now =
     (let denverOffset = - 7 * 60;
          denverTime = now + denverOffset * 60 * 1000
      in denverTime div 86400000)"

text \<open>
  The three objects the function returns: \<^verbatim>\<open>{error}\<close>, \<^verbatim>\<open>{triggered: true, sunset, diff}\<close>
  and \<^verbatim>\<open>{triggered: false, sunset, diff, denverDate, message}\<close>. The \<^verbatim>\<open>sunset\<close>
  field is kept as the instant whose ISO rendering the source stores.
\<close>

datatype sunset_result =
    SunsetError string
  | Triggered instant rat
  | NotTriggered instant rat civil_date string

fun triggered :: "sunset_result \<Rightarrow> bool option" where
  "triggered (SunsetError e) = None"
| "triggered (Triggered t d) = Some True"
| "triggered (NotTriggered t d dd m) = Some False"

fun diff :: "sunset_result \<Rightarrow> rat option" where
  "diff (SunsetError e) = None"
| "diff (Triggered t d) = Some d"
| "diff (NotTriggered t d dd m) = Some d"

text \<open>
  JavaScript numbers are doubles, and every arithmetic operation rounds its exact result
  to the nearest double, to the even significand on a tie. \<open>to_double\<close> is that rounding
  on the rationals: \<open>binade q\<close> is the exponent \<open>e\<close> with \<open>2 ^ e \<le> q < 2 ^ (e + 1)\<close>,
  and a number of that size is rounded to a multiple of \<open>2 ^ (e - 52)\<close>, which leaves 53
  significant bits. The limits of the exponent of a double are left out: no quantity
  computed from valid dates comes near them.
\<close>

definition round_even :: "rat \<Rightarrow> int" where
  "round_even r =
     (let f = \<lfloor>r\<rfloor>; d = r - of_int f
      in if d < 1 / 2 then f else if 1 / 2 < d then f + 1 else if even f then f else f + 1)"

definition binade :: "rat \<Rightarrow> int" where
  "binade q =
     (let e0 = bitlen (fst (quotient_of q)) - bitlen (snd (quotient_of q))
      in if 2 powi e0 \<le> q then e0 else e0 - 1)"

definition to_double :: "rat \<Rightarrow> rat" where
  "to_double x =
     (if x = 0 then 0
      else (let u = 2 powi (binade \<bar>x\<bar> - 52)
            in sgn x * of_int (round_even (\<bar>x\<bar> / u)) * u))"

text \<open>
  Line 69, \<^verbatim>\<open>(now - sunsetTime) / 1000 / 60\<close>: a subtraction and two divisions, each
  rounded.
\<close>

definition diffMinutes :: "instant \<Rightarrow> instant \<Rightarrow> rat" where
  "diffMinutes now sunsetTime =
     to_double (to_double (to_double (of_int (now - sunsetTime)) / 1000) / 60)"

definition checkSunsetAndTurnOn :: "world \<Rightarrow> effects \<Rightarrow> (js_error + sunset_result) \<times> effects" where
  "checkSunsetAndTurnOn w s =
     (let today = getDenverDate (clock s);
          s1 = fetch w (SolarQuery today) s
      in case solar w today of
           Inl err \<Rightarrow> (Inl err, s1)
         | Inr sunsetData \<Rightarrow>
             if status sunsetData \<noteq> ''OK''
             then (Inr (SunsetError ''Failed to fetch sunset''), say SunsetFetchFailed s1)
             else (case sunset sunsetData of
                     None \<Rightarrow> (Inl (RangeError ''Invalid time value''), s1)
                   | Some sunsetTime \<Rightarrow>
                       (let now = clock s1;
                            d = diffMinutes now sunsetTime;
                            s2 = say (SunsetInfo today sunsetTime now d) s1
                        in if d \<ge> - 5 \<and> d \<le> 20
                           then (case controlAllLights w True s2 of
                                   (Inl err, s3) \<Rightarrow> (Inl err, s3)
                                 | (Inr u, s3) \<Rightarrow>
                                     (Inr (Triggered sunsetTime d), say LightsOnAtSunset s3))
                           else (Inr (NotTriggered sunsetTime d today ''Not sunset time yet''),
                                 s2))))"

section \<open>The status aggregator: \<^verbatim>\<open>getDeviceStatus\<close>\<close>

text \<open>
  The callback of \<^verbatim>\<open>devices.map\<close>, lines 95 to 144, as far as its value goes: whatever
  is thrown while the state is fetched and read is caught and becomes the \<^verbatim>\<open>error\<close>
  field.
\<close>

definition device_entry :: "world \<Rightarrow> device \<Rightarrow> device_status" where
  "device_entry w d =
     (case device_state w d of
        Inl err \<Rightarrow> StatusError (deviceName d) (sku d) (message err)
      | Inr caps \<Rightarrow>
          decode (coerce w) d (case caps of None \<Rightarrow> [] | Some cs \<Rightarrow> cs))"

text \<open>
  \<^verbatim>\<open>devices.map(async ...)\<close> runs every callback up to its first \<^verbatim>\<open>await\<close>, which is
  the \<^verbatim>\<open>fetch\<close>: all state requests are issued at the instant \<open>t\<close> of the \<^verbatim>\<open>map\<close>.
\<close>

definition state_calls :: "world \<Rightarrow> instant \<Rightarrow> device list \<Rightarrow> call list" where
  "state_calls w t devices =
     map (\<lambda>d. \<lparr>request = DeviceState d, issued = t,
               settled = t + int (latency w (DeviceState d))\<rparr>) devices"

text \<open>\<^verbatim>\<open>await Promise.all(...)\<close> resumes when the last of the requests has settled.\<close>

definition joined :: "instant \<Rightarrow> call list \<Rightarrow> instant" where
  "joined t cs = fold max (map settled cs) t"

datatype status_report =
    Report "device_status list" instant
  | ReportError string instant

definition getDeviceStatus :: "world \<Rightarrow> effects \<Rightarrow> status_report \<times> effects" where
  "getDeviceStatus w s =
     (let s1 = fetch w ListDevices s
      in case directory w of
           Inl err \<Rightarrow> (ReportError (message err) (clock s1), s1)
         | Inr devicesData \<Rightarrow>
             (let devices = data_or_empty devicesData;
                  cs = state_calls w (clock s1) devices;
                  statuses = map (device_entry w) devices;
                  s2 = s1\<lparr>clock := joined (clock s1) cs, calls := calls s1 @ cs\<rparr>
              in (Report statuses (clock s2), s2)))"

section \<open>The handlers\<close>

text \<open>\<^verbatim>\<open>new Date().getUTCHours()\<close>.\<close>

definition getUTCHours :: "instant \<Rightarrow> int" where
  "getUTCHours t = (t div 3600000) mod 24"

definition scheduled :: "world \<Rightarrow> effects \<Rightarrow> (js_error + js_value) \<times> effects" where
  "scheduled w s =
     (let hour = getUTCHours (clock s)
      in if hour = 8
         then (case controlAllLights w False s of
                 (Inl err, s1) \<Rightarrow> (Inl err, s1)
               | (Inr u, s1) \<Rightarrow> (Inr JUndefined, say LightsOff s1))
         else if hour \<ge> 22 \<or> hour \<le> 2
         then (case checkSunsetAndTurnOn w s of
                 (Inl err, s1) \<Rightarrow> (Inl err, s1)
               | (Inr r, s1) \<Rightarrow> (Inr JUndefined, s1))
         else (Inr JUndefined, s))"

datatype response =
    Text string
  | SunsetJson sunset_result
  | StatusJson status_report

text \<open>The \<^verbatim>\<open>fetch(request, env)\<close> handler, by the path of the request's URL.\<close>

definition fetch_endpoint :: "world \<Rightarrow> string \<Rightarrow> effects \<Rightarrow> (js_error + response) \<times> effects" where
  "fetch_endpoint w pathname s =
     (if pathname = ''/on''
      then (case controlAllLights w True s of
              (Inl err, s1) \<Rightarrow> (Inl err, s1)
            | (Inr u, s1) \<Rightarrow> (Inr (Text ''Lights ON''), s1))
      else if pathname = ''/off''
      then (case controlAllLights w False s of
              (Inl err, s1) \<Rightarrow> (Inl err, s1)
            | (Inr u, s1) \<Rightarrow> (Inr (Text ''Lights OFF''), s1))
      else if pathname = ''/sunset''
      then (case checkSunsetAndTurnOn w s of
              (Inl err, s1) \<Rightarrow> (Inl err, s1)
            | (Inr result, s1) \<Rightarrow> (Inr (SunsetJson result), s1))
      else if pathname = ''/status''
      then (case getDeviceStatus w s of
              (result, s1) \<Rightarrow> (Inr (StatusJson result), s1))
      else (Inr (Text ''Endpoints: /on, /off, /sunset, /status''), s))"

text \<open>A handler starts with no request made and an empty console.\<close>

definition start :: "instant \<Rightarrow> effects" where
  "start t = \<lparr>clock = t, calls = [], console = []\<rparr>"

text \<open>The requests made, the control requests among them, and their payload values.\<close>

definition requests :: "effects \<Rightarrow> request list" where
  "requests s = map request (calls s)"

fun is_control :: "request \<Rightarrow> bool" where
  "is_control (DeviceControl d v) = True"
| "is_control r = False"

fun is_solar :: "request \<Rightarrow> bool" where
  "is_solar (SolarQuery d) = True"
| "is_solar r = False"

section \<open>Sequential requests\<close>

text \<open>
  The calls that result when the requests \<open>rs\<close> are awaited one after the other from the
  instant \<open>t\<close> on, and the property that each call of a list is issued at the instant at
  which the one before it settled, the first at \<open>t\<close>.
\<close>

fun in_turn :: "world \<Rightarrow> instant \<Rightarrow> request list \<Rightarrow> call list" where
  "in_turn w t [] = []"
| "in_turn w t (r # rs) =
     \<lparr>request = r, issued = t, settled = t + int (latency w r)\<rparr>
       # in_turn w (t + int (latency w r)) rs"

fun back_to_back :: "instant \<Rightarrow> call list \<Rightarrow> bool" where
  "back_to_back t [] = True"
| "back_to_back t (c # cs) = (issued c = t \<and> back_to_back (settled c) cs)"

section \<open>A household\<close>

text \<open>
  Two lights. The porch light is unreachable for state queries and control requests; the
  lamp is on, at brightness 80, colored \<open>0xFF8000\<close>, with no scene. The sun sets at
  2024-06-02 02:00 UTC, which is 19:00 on the first of June at seven hours behind UTC.
\<close>

definition cap :: "string \<Rightarrow> string \<Rightarrow> js_value option \<Rightarrow> capability" where
  "cap t i v = \<lparr>cap_type = JStr t, cap_instance = JStr i, cap_state = v\<rparr>"

definition porch :: device where
  "porch = \<lparr>device = ''AA:01'', sku = ''H6008'', deviceName = ''Porch''\<rparr>"

definition lamp :: device where
  "lamp = \<lparr>device = ''AA:02'', sku = ''H6076'', deviceName = ''Lamp''\<rparr>"

definition lamp_caps :: "capability list" where
  "lamp_caps =
     [cap ''devices.capabilities.on_off'' ''powerSwitch'' (Some (JNum 1)),
      cap ''devices.capabilities.range'' ''brightness'' (Some (JNum 80)),
      cap ''devices.capabilities.color_setting'' ''colorRgb'' (Some (JNum 16744448)),
      cap ''devices.capabilities.dynamic_scene'' ''lightScene'' (Some (JNum 0))]"

definition dusk :: instant where
  "dusk = 1717293600000"

definition home :: world where
  "home =
     \<lparr>latency = (\<lambda>r. case r of
                       SolarQuery day \<Rightarrow> 200
                     | ListDevices \<Rightarrow> 150
                     | DeviceState d \<Rightarrow> (if d = porch then 300 else 100)
                     | DeviceControl d v \<Rightarrow> (if d = porch then 400 else 100)),
      solar = (\<lambda>day. Inr \<lparr>status = ''OK'', sunset = Some dusk\<rparr>),
      directory = Inr (Some [porch, lamp]),
      device_state = (\<lambda>d. if d = porch then Inl (TypeError ''fetch failed'')
                           else Inr (Some lamp_caps)),
      control = (\<lambda>d v. if d = porch then Some (TypeError ''fetch failed'') else None),
      coerce = (\<lambda>v. None)\<rparr>"

definition no_sunset :: world where
  "no_sunset = home\<lparr>solar := (\<lambda>day. Inr \<lparr>status = ''INVALID_DATE'', sunset = None\<rparr>)\<rparr>"

definition unlisted :: world where
  "unlisted = home\<lparr>directory := Inr None\<rparr>"

definition unreachable :: world where
  "unreachable = home\<lparr>directory := Inl (TypeError ''fetch failed'')\<rparr>"

section \<open>Properties of the status decoder\<close>

lemma byte_mask: "(255::int) = mask 8"
  by (simp add: mask_eq_exp_minus_1)

lemma bit_below_24:
  assumes "0 \<le> v" "v \<le> 0xFFFFFF" "bit (v::int) n"
  shows "n < 24"
proof -
  have "take_bit 24 v = v"
    using assms(1,2) by (simp add: take_bit_int_eq_self)
  then have "bit (take_bit 24 v) n"
    using assms(3) by simp
  then show ?thesis
    by (simp add: bit_take_bit_iff)
qed

lemma channels_or:
  assumes "0 \<le> v" "v \<le> 0xFFFFFF"
  shows "push_bit 16 (drop_bit 16 v AND 255) OR push_bit 8 (drop_bit 8 v AND 255) OR (v AND 255)
           = (v::int)"
  unfolding byte_mask
proof (rule bit_eqI)
  fix n
  show "bit (push_bit 16 (drop_bit 16 v AND mask 8) OR push_bit 8 (drop_bit 8 v AND mask 8)
               OR (v AND mask 8)) n = bit v n"
    using bit_below_24 [OF assms, of n]
    by (cases "n < 8"; cases "n < 16") (auto simp: bit_simps)
qed

lemma channels_plus:
  "push_bit 16 (x AND 255) + push_bit 8 (y AND 255) + (z AND 255)
     = push_bit 16 (x AND 255) OR push_bit 8 (y AND 255) OR (z AND (255::int))"
proof -
  have hi: "push_bit 16 (x AND mask 8) + push_bit 8 (y AND mask 8)
              = push_bit 16 (x AND mask 8) OR push_bit 8 (y AND (mask 8::int))"
    by (rule disjunctive_add_eq_or, rule bit_eqI) (auto simp: bit_simps)
  have lo: "(push_bit 16 (x AND mask 8) OR push_bit 8 (y AND mask 8)) + (z AND mask 8)
              = (push_bit 16 (x AND mask 8) OR push_bit 8 (y AND mask 8)) OR (z AND (mask 8::int))"
    by (rule disjunctive_add_eq_or, rule bit_eqI) (auto simp: bit_simps)
  show ?thesis
    unfolding byte_mask by (simp only: hi lo or.assoc)
qed

lemma channel_range: "0 \<le> (x AND 255 :: int) \<and> x AND 255 \<le> 255"
  by (simp add: AND_upper2')

lemma shifted_channel:
  "0 \<le> (c::int) \<Longrightarrow> c \<le> 255 \<Longrightarrow>
     signed_take_bit 31 (push_bit 16 c) = push_bit 16 c
     \<and> signed_take_bit 31 (push_bit 8 c) = push_bit 8 c"
  by (simp add: signed_take_bit_int_eq_self push_bit_eq_mult)

lemma pack_rgb_bytes:
  "pack_rgb (Rgb (x AND 255) (y AND 255) (z AND 255))
     = push_bit 16 (x AND 255) OR push_bit 8 (y AND 255) OR (z AND 255)"
  using shifted_channel [of "x AND 255"] shifted_channel [of "y AND 255"]
        channel_range [of x] channel_range [of y] channels_plus [of x y z]
  by simp

lemma ToInt32_color: "0 \<le> v \<Longrightarrow> v \<le> 0xFFFFFF \<Longrightarrow> ToInt32 (ToNumber h (JNum (of_int v))) = v"
  by (simp add: ToInt32_def js_trunc_def signed_take_bit_int_eq_self)

lemma color_of_decode:
  "color_of (decode h d caps) =
     Some (let colorInt = state_value (find (\<lambda>c. cap_instance c = JStr ''colorRgb'') caps)
           in if colorInt \<noteq> JNull \<and> colorInt \<noteq> JUndefined then Some (rgb_of h colorInt) else None)"
  by (simp add: decode_def Let_def)

lemma power_of_decode:
  "power_of (decode h d caps) =
     Some (if state_value (find (\<lambda>c. cap_type c = JStr ''devices.capabilities.on_off'') caps) = JNum 1
           then ON else OFF)"
  by (simp add: decode_def Let_def)

lemma scene_of_decode:
  "scene_of (decode h d caps) =
     Some (or_else (state_value (find (\<lambda>c. cap_instance c = JStr ''lightScene'') caps)) JNull)"
  by (simp add: decode_def Let_def)

text \<open>
  Claim C4. For every packed color \<open>v\<close> from 0 to \<open>0xFFFFFF\<close> reported by the first
  capability whose instance is \<^verbatim>\<open>colorRgb\<close>, the decoded color has the channels
  \<open>(v >> 16) & 255\<close>, \<open>(v >> 8) & 255\<close> and \<open>v & 255\<close>; packing these as
  \<open>r << 16 | g << 8 | b\<close> gives \<open>v\<close> back, and so does the packing that the control
  surface sends; without a \<^verbatim>\<open>colorRgb\<close> capability the color is \<^verbatim>\<open>null\<close>.
\<close>

theorem color_channels_round_trip:
  fixes v :: int
  assumes "0 \<le> v" and "v \<le> 0xFFFFFF"
  shows "(find (\<lambda>c. cap_instance c = JStr ''colorRgb'') caps = Some c
            \<and> cap_state c = Some (JNum (of_int v))
          \<longrightarrow> color_of (decode h d caps)
                = Some (Some (Rgb (drop_bit 16 v AND 255) (drop_bit 8 v AND 255) (v AND 255))))
       \<and> push_bit 16 (drop_bit 16 v AND 255) OR push_bit 8 (drop_bit 8 v AND 255) OR (v AND 255) = v
       \<and> pack_rgb (rgb_of h (JNum (of_int v))) = v
       \<and> (find (\<lambda>c. cap_instance c = JStr ''colorRgb'') caps' = None
          \<longrightarrow> color_of (decode h d caps') = Some None)"
proof -
  have i: "ToInt32 (ToNumber h (JNum (of_int v))) = v"
    using assms by (rule ToInt32_color)
  have rgb: "rgb_of h (JNum (of_int v))
               = Rgb (drop_bit 16 v AND 255) (drop_bit 8 v AND 255) (v AND 255)"
    unfolding rgb_of_def i by (simp add: Let_def)
  have present: "find (\<lambda>c. cap_instance c = JStr ''colorRgb'') caps = Some c
            \<and> cap_state c = Some (JNum (of_int v))
          \<longrightarrow> color_of (decode h d caps)
                = Some (Some (Rgb (drop_bit 16 v AND 255) (drop_bit 8 v AND 255) (v AND 255)))"
    by (simp add: color_of_decode state_value_def rgb Let_def)
  have again: "push_bit 16 (drop_bit 16 v AND 255) OR push_bit 8 (drop_bit 8 v AND 255) OR (v AND 255) = v"
    using assms by (rule channels_or)
  have pack: "pack_rgb (rgb_of h (JNum (of_int v))) = v"
    unfolding rgb pack_rgb_bytes by (rule again)
  have absent: "find (\<lambda>c. cap_instance c = JStr ''colorRgb'') caps' = None
          \<longrightarrow> color_of (decode h d caps') = Some None"
    by (simp add: color_of_decode state_value_def)
  from present again pack absent show ?thesis
    by blast
qed

text \<open>
  Claim C5. The decoded power is \<^verbatim>\<open>ON\<close> exactly when a capability of type
  \<^verbatim>\<open>devices.capabilities.on_off\<close> is found and the value it reports is the number 1;
  it is \<^verbatim>\<open>OFF\<close> in every other case, in particular when no capability has that type.
\<close>

theorem power_on_iff_literally_one:
  "(power_of (decode h d caps) = Some ON \<longleftrightarrow>
      (\<exists>c. find (\<lambda>c. cap_type c = JStr ''devices.capabilities.on_off'') caps = Some c
           \<and> cap_state c = Some (JNum 1)))
   \<and> (power_of (decode h d caps) = Some ON \<or> power_of (decode h d caps) = Some OFF)
   \<and> ((\<forall>c \<in> set caps. cap_type c \<noteq> JStr ''devices.capabilities.on_off'')
        \<longrightarrow> power_of (decode h d caps) = Some OFF)"
proof -
  let ?P = "\<lambda>c. cap_type c = JStr ''devices.capabilities.on_off''"
  have iff: "power_of (decode h d caps) = Some ON \<longleftrightarrow>
      (\<exists>c. find ?P caps = Some c \<and> cap_state c = Some (JNum 1))"
    by (auto simp: power_of_decode state_value_def split: option.splits)
  have two: "power_of (decode h d caps) = Some ON \<or> power_of (decode h d caps) = Some OFF"
    by (simp add: power_of_decode)
  have missing: "(\<forall>c \<in> set caps. \<not> ?P c) \<longrightarrow> power_of (decode h d caps) = Some OFF"
  proof
    assume "\<forall>c \<in> set caps. \<not> ?P c"
    then have "find ?P caps = None"
      by (simp add: find_None_iff)
    then show "power_of (decode h d caps) = Some OFF"
      by (simp add: power_of_decode state_value_def)
  qed
  from iff two missing show ?thesis
    by blast
qed

text \<open>
  Claim C10. When the \<^verbatim>\<open>colorRgb\<close> capability is present and reports no value,
  \<^verbatim>\<open>null\<close> or \<^verbatim>\<open>undefined\<close>, the color is \<^verbatim>\<open>null\<close>; when it reports 0 the color
  is \<open>(0, 0, 0)\<close>, whereas a falsy value reported by the \<^verbatim>\<open>lightScene\<close> capability
  gives the scene \<^verbatim>\<open>null\<close>.
\<close>

theorem color_absent_only_when_nullish:
  "(find (\<lambda>c. cap_instance c = JStr ''colorRgb'') caps = Some c
      \<and> (cap_state c = None \<or> cap_state c = Some JNull \<or> cap_state c = Some JUndefined)
    \<longrightarrow> color_of (decode h d caps) = Some None)
   \<and> (find (\<lambda>c. cap_instance c = JStr ''colorRgb'') caps = Some c
      \<and> cap_state c = Some (JNum 0)
    \<longrightarrow> color_of (decode h d caps) = Some (Some (Rgb 0 0 0)))
   \<and> (find (\<lambda>c. cap_instance c = JStr ''lightScene'') caps = Some c'
      \<and> cap_state c' = Some v \<and> \<not> truthy v
    \<longrightarrow> scene_of (decode h d caps) = Some JNull)"
  by (auto simp: color_of_decode scene_of_decode state_value_def rgb_of_def ToInt32_def
        js_trunc_def or_else_def Let_def split: option.splits)

section \<open>Requests and console lines of the dispatcher\<close>

lemma getUTCHours_range: "0 \<le> getUTCHours t \<and> getUTCHours t < 24"
  by (simp add: getUTCHours_def)

lemma requests_say [simp]: "requests (say l s) = requests s"
  by (simp add: requests_def say_def)

lemma requests_fetch [simp]: "requests (fetch w r s) = requests s @ [r]"
  by (simp add: requests_def fetch_def)

lemma console_say [simp]: "console (say l s) = console s @ [l]"
  by (simp add: say_def)

lemma console_fetch [simp]: "console (fetch w r s) = console s"
  by (simp add: fetch_def)

lemma clock_say [simp]: "clock (say l s) = clock s"
  by (simp add: say_def)

lemma calls_say [simp]: "calls (say l s) = calls s"
  by (simp add: say_def)

lemma clock_fetch: "clock (fetch w r s) = clock s + int (latency w r)"
  by (simp add: fetch_def)

lemma calls_fetch:
  "calls (fetch w r s) =
     calls s @ [\<lparr>request = r, issued = clock s, settled = clock s + int (latency w r)\<rparr>]"
  by (simp add: fetch_def)

lemma control_loop_requests:
  "requests (control_loop w b ds s) =
     requests s @ map (\<lambda>d. DeviceControl d (if b then 1 else 0)) ds"
  by (induction ds arbitrary: s) (auto simp: Let_def split: option.splits)

lemma control_loop_console:
  "console (control_loop w b ds s) =
     console s @ map (\<lambda>d. case control w d (if b then 1 else 0) of
                            None \<Rightarrow> Switched b (deviceName d)
                          | Some err \<Rightarrow> FailedToControl (deviceName d) err) ds"
  by (induction ds arbitrary: s) (auto simp: Let_def split: option.splits)

lemma controlAllLights_result:
  "fst (controlAllLights w b s) = (case directory w of Inl err \<Rightarrow> Inl err | Inr dd \<Rightarrow> Inr JUndefined)"
  by (simp add: controlAllLights_def Let_def split: sum.splits)

lemma controlAllLights_requests:
  "requests (snd (controlAllLights w b s)) =
     requests s @ ListDevices #
       (case directory w of
          Inl err \<Rightarrow> []
        | Inr dd \<Rightarrow> map (\<lambda>d. DeviceControl d (if b then 1 else 0)) (data_or_empty dd))"
  by (simp add: controlAllLights_def Let_def control_loop_requests split: sum.splits)

lemma controlAllLights_console:
  "directory w = Inr dd \<Longrightarrow>
   console (snd (controlAllLights w b s)) =
     console s @ Found (length (data_or_empty dd)) #
       map (\<lambda>d. case control w d (if b then 1 else 0) of
                   None \<Rightarrow> Switched b (deviceName d)
                 | Some err \<Rightarrow> FailedToControl (deviceName d) err) (data_or_empty dd)"
  by (simp add: controlAllLights_def Let_def control_loop_console)

text \<open>
  Claim C3, as amended. \<^verbatim>\<open>controlAllLights\<close> returns no value (its promise resolves to
  \<^verbatim>\<open>undefined\<close>). When the device list can be fetched it issues, after the listing, one
  control request per device of the roster, in the order of the roster, whichever of
  them reject; and it writes one console line per device, in the same order: the line
  of a successful switch, or the failure line for a device whose request rejected.
\<close>

theorem dispatch_reaches_every_device:
  assumes "directory w = Inr dd"
  shows "fst (controlAllLights w turnOn s) = Inr JUndefined
       \<and> requests (snd (controlAllLights w turnOn s)) =
           requests s @ ListDevices #
             map (\<lambda>d. DeviceControl d (if turnOn then 1 else 0)) (data_or_empty dd)
       \<and> console (snd (controlAllLights w turnOn s)) =
           console s @ Found (length (data_or_empty dd)) #
             map (\<lambda>d. case control w d (if turnOn then 1 else 0) of
                         None \<Rightarrow> Switched turnOn (deviceName d)
                       | Some err \<Rightarrow> FailedToControl (deviceName d) err) (data_or_empty dd)"
  using assms
  by (simp add: controlAllLights_result controlAllLights_requests controlAllLights_console)

section \<open>Rounding to doubles\<close>

lemma round_even_lower: "\<lfloor>r\<rfloor> \<le> round_even r"
  by (simp add: round_even_def Let_def)

lemma round_even_upper: "round_even r \<le> \<lceil>r\<rceil>"
proof (cases "r = of_int \<lfloor>r\<rfloor>")
  case True
  then have "r - of_int \<lfloor>r\<rfloor> = 0" by simp
  then have "round_even r = \<lfloor>r\<rfloor>"
    by (simp add: round_even_def Let_def)
  then show ?thesis
    by (simp add: floor_le_ceiling)
next
  case False
  then have "\<lceil>r\<rceil> = \<lfloor>r\<rfloor> + 1"
    by (simp add: ceiling_altdef)
  then show ?thesis
    by (simp add: round_even_def Let_def)
qed

lemma bitlen_powi:
  assumes "0 < a"
  shows "(2::rat) powi (bitlen a - 1) \<le> of_int a" and "of_int a < (2::rat) powi bitlen a"
proof -
  from bitlen_bounds [OF assms]
  have lo: "2 ^ nat (bitlen a - 1) \<le> a" and hi: "a < 2 ^ nat (bitlen a)"
    by simp_all
  have pos: "1 \<le> bitlen a"
    using assms bitlen_nonneg [of a] bitlen_eq_zero_iff [of a] by linarith
  have "(of_int (2 ^ nat (bitlen a - 1)) :: rat) \<le> of_int a"
    using lo by (simp only: of_int_le_iff)
  then show "(2::rat) powi (bitlen a - 1) \<le> of_int a"
    using pos by (simp add: power_int_nonneg_exp)
  have "(of_int a :: rat) < of_int (2 ^ nat (bitlen a))"
    using hi by (simp only: of_int_less_iff)
  then show "of_int a < (2::rat) powi bitlen a"
    using pos by (simp add: power_int_nonneg_exp)
qed

lemma binade_bounds:
  assumes "0 < q"
  shows "2 powi binade q \<le> q" and "q < 2 powi (binade q + 1)"
proof -
  obtain a b where ab: "quotient_of q = (a, b)"
    by (cases "quotient_of q")
  then have b: "0 < b" and q: "q = of_int a / of_int b"
    by (simp_all add: quotient_of_denom_pos quotient_of_div)
  from assms q b have a: "0 < a"
    by (simp add: zero_less_divide_iff)
  define e0 where "e0 = bitlen a - bitlen b"
  have e: "binade q = (if 2 powi e0 \<le> q then e0 else e0 - 1)"
    by (simp add: binade_def ab e0_def Let_def)
  have bpos: "(0::rat) < of_int b"
    using b by simp
  have "q < 2 powi bitlen a / 2 powi (bitlen b - 1)"
  proof -
    have "q < 2 powi bitlen a / of_int b"
      unfolding q using bitlen_powi(2) [OF a] bpos by (simp add: divide_strict_right_mono)
    also have "\<dots> \<le> 2 powi bitlen a / 2 powi (bitlen b - 1)"
      using bitlen_powi(1) [OF b] by (simp add: frac_le)
    finally show ?thesis .
  qed
  moreover have "(2::rat) powi (e0 + 1) = 2 powi bitlen a / 2 powi (bitlen b - 1)"
  proof -
    have "e0 + 1 = bitlen a - (bitlen b - 1)"
      by (simp add: e0_def)
    then show ?thesis
      using power_int_diff [of "2::rat" "bitlen a" "bitlen b - 1"] by (simp only:) simp
  qed
  ultimately have upper: "q < 2 powi (e0 + 1)"
    by simp
  have "2 powi (bitlen a - 1) / 2 powi bitlen b < q"
  proof -
    have "2 powi (bitlen a - 1) / 2 powi bitlen b < 2 powi (bitlen a - 1) / (of_int b :: rat)"
      using bitlen_powi(2) [OF b] bpos by (simp add: frac_less2)
    also have "\<dots> \<le> q"
      unfolding q using bitlen_powi(1) [OF a] bpos by (simp add: divide_right_mono)
    finally show ?thesis .
  qed
  moreover have "(2::rat) powi (e0 - 1) = 2 powi (bitlen a - 1) / 2 powi bitlen b"
  proof -
    have "e0 - 1 = bitlen a - 1 - bitlen b"
      by (simp add: e0_def)
    then show ?thesis
      using power_int_diff [of "2::rat" "bitlen a - 1" "bitlen b"] by (simp only:) simp
  qed
  ultimately have lower: "2 powi (e0 - 1) < q"
    by simp
  show "2 powi binade q \<le> q"
    using lower by (simp add: e)
  show "q < 2 powi (binade q + 1)"
    using upper by (auto simp: e)
qed


lemma to_double_minus: "to_double (- x) = - to_double x"
  by (simp add: to_double_def Let_def)


text \<open>
  A double \<open>m * 2 ^ k\<close>, with \<open>0 < m < 2 ^ 53\<close>, that is not below \<open>2 ^ e\<close> is a whole
  multiple of \<open>2 ^ (e - 52)\<close>.
\<close>

lemma scaled_integer:
  assumes "0 < m" and "m < 2 ^ 53" and "2 powi e \<le> of_int m * (2::rat) powi k"
  shows "\<exists>N::int. of_int m * (2::rat) powi k / 2 powi (e - 52) = of_int N"
proof -
  have "(2::rat) powi e < 2 ^ 53 * 2 powi k"
  proof -
    have "(of_int m :: rat) < of_int (2 ^ 53)"
      using assms(2) by (simp only: of_int_less_iff)
    then have "(of_int m :: rat) < 2 ^ 53"
      by simp
    moreover have "(0::rat) < 2 powi k"
      by (simp add: zero_less_power_int)
    ultimately have "of_int m * (2::rat) powi k < 2 ^ 53 * 2 powi k"
      by (rule mult_strict_right_mono)
    with assms(3) show ?thesis
      by (rule le_less_trans)
  qed
  also have "(2::rat) ^ 53 * 2 powi k = 2 powi (k + 53)"
    by (simp add: power_int_add)
  finally have "(2::rat) powi e < 2 powi (k + 53)" .
  then have "e < k + 53"
  proof (rule contrapos_pp)
    assume "\<not> e < k + 53"
    then have "k + 53 \<le> e"
      by simp
    then have "(2::rat) powi (k + 53) \<le> 2 powi e"
      by (intro power_int_increasing) simp_all
    then show "\<not> (2::rat) powi e < 2 powi (k + 53)"
      by simp
  qed
  then have "0 \<le> k - e + 52"
    by simp
  then have "(2::rat) powi (k - e + 52) = of_int (2 ^ nat (k - e + 52))"
    by (simp add: power_int_nonneg_exp)
  moreover have "of_int m * (2::rat) powi k / 2 powi (e - 52) = of_int m * 2 powi (k - e + 52)"
    using power_int_diff [of "2::rat" k "e - 52"] by (simp add: algebra_simps)
  ultimately have "of_int m * (2::rat) powi k / 2 powi (e - 52) = of_int (m * 2 ^ nat (k - e + 52))"
    by simp
  then show ?thesis ..
qed


lemma to_double_pos:
  assumes "0 < x"
  shows "to_double x = of_int (round_even (x / 2 powi (binade x - 52))) * 2 powi (binade x - 52)"
  using assms by (simp add: to_double_def Let_def)

lemma round_up_bound:
  assumes "0 < x" and "0 < m" and "m < 2 ^ 53" and "x \<le> of_int m * 2 powi k"
  shows "to_double x \<le> of_int m * 2 powi k"
proof -
  define u :: rat where "u = 2 powi (binade x - 52)"
  have u: "0 < u"
    by (simp add: u_def zero_less_power_int)
  have "2 powi binade x \<le> of_int m * (2::rat) powi k"
    using binade_bounds(1) [OF assms(1)] assms(4) by (rule order_trans)
  from scaled_integer [OF assms(2,3) this]
  obtain N :: int where N: "of_int m * 2 powi k / u = of_int N"
    unfolding u_def by blast
  have "x / u \<le> of_int m * 2 powi k / u"
    using assms(4) u by (simp add: divide_right_mono)
  then have "\<lceil>x / u\<rceil> \<le> N"
    unfolding N by (simp add: ceiling_le_iff)
  with round_even_upper [of "x / u"] have "round_even (x / u) \<le> N"
    by (rule order_trans)
  then have "(of_int (round_even (x / u)) :: rat) \<le> of_int N"
    by (simp only: of_int_le_iff)
  then have "of_int (round_even (x / u)) * u \<le> of_int N * u"
    using u by (simp add: mult_right_mono)
  also have "of_int N * u = of_int m * 2 powi k"
    using N u by (simp add: field_simps)
  finally show ?thesis
    unfolding to_double_pos [OF assms(1)] u_def .
qed

lemma round_down_bound:
  assumes "0 < m" and "m < 2 ^ 53" and "of_int m * 2 powi k \<le> x"
  shows "of_int m * 2 powi k \<le> to_double x"
proof -
  have y: "(0::rat) < of_int m * 2 powi k"
    using assms(1) by (simp add: zero_less_power_int)
  from y assms(3) have x: "0 < x"
    by (rule less_le_trans)
  define u :: rat where "u = 2 powi (binade x - 52)"
  have u: "0 < u"
    by (simp add: u_def zero_less_power_int)
  have fl: "to_double x = of_int (round_even (x / u)) * u"
    unfolding to_double_pos [OF x] u_def ..
  show ?thesis
  proof (cases "2 powi binade x \<le> of_int m * (2::rat) powi k")
    case True
    from scaled_integer [OF assms(1,2) this]
    obtain N :: int where N: "of_int m * 2 powi k / u = of_int N"
      unfolding u_def by blast
    have "of_int m * 2 powi k / u \<le> x / u"
      using assms(3) u by (simp add: divide_right_mono)
    then have "N \<le> \<lfloor>x / u\<rfloor>"
      unfolding N by (simp add: le_floor_iff)
    then have "N \<le> round_even (x / u)"
      using round_even_lower [of "x / u"] by (rule order_trans)
    then have "(of_int N :: rat) \<le> of_int (round_even (x / u))"
      by (simp only: of_int_le_iff)
    then have "of_int N * u \<le> of_int (round_even (x / u)) * u"
      using u by (simp add: mult_right_mono)
    moreover have "of_int N * u = of_int m * 2 powi k"
      using N u by (simp add: field_simps)
    ultimately show ?thesis
      unfolding fl by simp
  next
    case False
    have "(2::rat) powi binade x = 2 ^ 52 * u"
      using power_int_add [of "2::rat" 52 "binade x - 52"] by (simp add: u_def)
    then have "2 ^ 52 * u \<le> x"
      using binade_bounds(1) [OF x] by simp
    then have "(of_int (2 ^ 52) :: rat) \<le> x / u"
      using u by (simp add: pos_le_divide_eq)
    then have "2 ^ 52 \<le> \<lfloor>x / u\<rfloor>"
      by (simp only: le_floor_iff)
    then have "2 ^ 52 \<le> round_even (x / u)"
      using round_even_lower [of "x / u"] by (rule order_trans)
    then have "(of_int (2 ^ 52) :: rat) \<le> of_int (round_even (x / u))"
      by (simp only: of_int_le_iff)
    then have "of_int (2 ^ 52) * u \<le> of_int (round_even (x / u)) * u"
      using u by (simp add: mult_right_mono)
    then have "2 powi binade x \<le> to_double x"
      unfolding fl \<open>(2::rat) powi binade x = 2 ^ 52 * u\<close> by simp
    with False show ?thesis
      by simp
  qed
qed

lemma to_double_nonneg:
  assumes "0 < x"
  shows "0 \<le> to_double x"
proof -
  have "0 \<le> x / 2 powi (binade x - 52)"
    using assms by (simp add: zero_less_power_int)
  then have "0 \<le> \<lfloor>x / 2 powi (binade x - 52)\<rfloor>"
    by simp
  then have "0 \<le> round_even (x / 2 powi (binade x - 52))"
    using round_even_lower [of "x / 2 powi (binade x - 52)"] by (rule order_trans)
  then show ?thesis
    unfolding to_double_pos [OF assms] by (simp add: zero_less_power_int)
qed

text \<open>
  A double \<open>m * 2 ^ k\<close>, with \<open>\<bar>m\<bar> < 2 ^ 53\<close>, that bounds a number bounds its rounding.
\<close>

lemma to_double_le:
  assumes "\<bar>m\<bar> < 2 ^ 53" and "x \<le> of_int m * 2 powi k"
  shows "to_double x \<le> of_int m * 2 powi k"
proof -
  consider "x = 0" | "0 < x" | "x < 0"
    by linarith
  then show ?thesis
  proof cases
    case 1
    with assms(2) show ?thesis
      by (simp add: to_double_def)
  next
    case 2
    with assms(2) have "(0::rat) < of_int m * 2 powi k"
      by simp
    moreover have "\<not> (2::rat) powi k < 0"
      by (simp add: not_less)
    ultimately have "0 < m"
      by (simp add: zero_less_mult_iff)
    with assms(1) have "m < 2 ^ 53"
      by simp
    from 2 \<open>0 < m\<close> this assms(2) show ?thesis
      by (rule round_up_bound)
  next
    case 3
    then have neg: "0 < - x"
      by simp
    have fl: "to_double x = - to_double (- x)"
      using to_double_minus [of "- x"] by simp
    show ?thesis
    proof (cases "0 \<le> m")
      case True
      then have "(0::rat) \<le> of_int m * 2 powi k"
        by (simp add: zero_less_power_int)
      moreover have "to_double x \<le> 0"
        unfolding fl using to_double_nonneg [OF neg] by simp
      ultimately show ?thesis
        by simp
    next
      case False
      then have m: "0 < - m" "- m < 2 ^ 53"
        using assms(1) by simp_all
      have "of_int (- m) * 2 powi k \<le> - x"
        using assms(2) by simp
      from round_down_bound [OF m this] show ?thesis
        unfolding fl by simp
    qed
  qed
qed

lemma to_double_ge:
  assumes "\<bar>m\<bar> < 2 ^ 53" and "of_int m * 2 powi k \<le> x"
  shows "of_int m * 2 powi k \<le> to_double x"
proof -
  have "\<bar>- m\<bar> < 2 ^ 53"
    using assms(1) by simp
  moreover have "- x \<le> of_int (- m) * 2 powi k"
    using assms(2) by simp
  ultimately have "to_double (- x) \<le> of_int (- m) * 2 powi k"
    by (rule to_double_le)
  then show ?thesis
    by (simp add: to_double_minus)
qed

lemma to_double_exact: "\<bar>m\<bar> < 2 ^ 53 \<Longrightarrow> to_double (of_int m * 2 powi k) = of_int m * 2 powi k"
  using to_double_le [of m "of_int m * 2 powi k" k] to_double_ge [of m k "of_int m * 2 powi k"]
  by simp


lemma to_double_le_int: "\<bar>m\<bar> < 2 ^ 53 \<Longrightarrow> x \<le> of_int m \<Longrightarrow> to_double x \<le> of_int m"
  using to_double_le [of m x 0] by simp

lemma to_double_ge_int: "\<bar>m\<bar> < 2 ^ 53 \<Longrightarrow> of_int m \<le> x \<Longrightarrow> of_int m \<le> to_double x"
  using to_double_ge [of m 0 x] by simp

text \<open>
  The comparisons of line 74 on the rounded quotient come out as on the milliseconds:
  -300000, -300 and -5, and 1200000, 1200 and 20, are doubles, and one millisecond
  further out the quotient stays beyond a double that is outside the window.
\<close>

lemma diffMinutes_lower: "(- 5 \<le> diffMinutes now t) = (- 300000 \<le> now - t)"
proof
  assume "- 300000 \<le> now - t"
  then have "(of_int (- 300000) :: rat) \<le> of_int (now - t)"
    by (simp only: of_int_le_iff)
  then have "of_int (- 300000) \<le> to_double (of_int (now - t))"
    by (intro to_double_ge_int) simp_all
  then have "of_int (- 300) \<le> to_double (of_int (now - t)) / 1000"
    by simp
  then have "of_int (- 300) \<le> to_double (to_double (of_int (now - t)) / 1000)"
    by (intro to_double_ge_int) simp_all
  then have "of_int (- 5) \<le> to_double (to_double (of_int (now - t)) / 1000) / 60"
    by simp
  then have "of_int (- 5) \<le> diffMinutes now t"
    unfolding diffMinutes_def by (intro to_double_ge_int) simp_all
  then show "- 5 \<le> diffMinutes now t"
    by simp
next
  assume inside: "- 5 \<le> diffMinutes now t"
  show "- 300000 \<le> now - t"
  proof (rule ccontr)
    assume "\<not> - 300000 \<le> now - t"
    then have "now - t \<le> - 300001"
      by simp
    then have "(of_int (now - t) :: rat) \<le> of_int (- 300001)"
      by (simp only: of_int_le_iff)
    then have "to_double (of_int (now - t)) \<le> of_int (- 300001)"
      by (intro to_double_le_int) simp_all
    then have "to_double (of_int (now - t)) / 1000 \<le> of_int (- 307201) * 2 powi (- 10)"
      by simp
    then have "to_double (to_double (of_int (now - t)) / 1000) \<le> of_int (- 307201) * 2 powi (- 10)"
      by (intro to_double_le) simp_all
    then have "to_double (to_double (of_int (now - t)) / 1000) / 60 \<le> of_int (- 655361) * 2 powi (- 17)"
      by simp
    then have "diffMinutes now t \<le> of_int (- 655361) * 2 powi (- 17)"
      unfolding diffMinutes_def by (intro to_double_le) simp_all
    with inside show False
      by simp
  qed
qed

lemma diffMinutes_upper: "(diffMinutes now t \<le> 20) = (now - t \<le> 1200000)"
proof
  assume "now - t \<le> 1200000"
  then have "(of_int (now - t) :: rat) \<le> of_int 1200000"
    by (simp only: of_int_le_iff)
  then have "to_double (of_int (now - t)) \<le> of_int 1200000"
    by (intro to_double_le_int) simp_all
  then have "to_double (of_int (now - t)) / 1000 \<le> of_int 1200"
    by simp
  then have "to_double (to_double (of_int (now - t)) / 1000) \<le> of_int 1200"
    by (intro to_double_le_int) simp_all
  then have "to_double (to_double (of_int (now - t)) / 1000) / 60 \<le> of_int 20"
    by simp
  then have "diffMinutes now t \<le> of_int 20"
    unfolding diffMinutes_def by (intro to_double_le_int) simp_all
  then show "diffMinutes now t \<le> 20"
    by simp
next
  assume inside: "diffMinutes now t \<le> 20"
  show "now - t \<le> 1200000"
  proof (rule ccontr)
    assume "\<not> now - t \<le> 1200000"
    then have "1200001 \<le> now - t"
      by simp
    then have "(of_int 1200001 :: rat) \<le> of_int (now - t)"
      by (simp only: of_int_le_iff)
    then have "of_int 1200001 \<le> to_double (of_int (now - t))"
      by (intro to_double_ge_int) simp_all
    then have "of_int 1228801 * 2 powi (- 10) \<le> to_double (of_int (now - t)) / 1000"
      by simp
    then have "of_int 1228801 * 2 powi (- 10) \<le> to_double (to_double (of_int (now - t)) / 1000)"
      by (intro to_double_ge) simp_all
    then have "of_int 1310721 * 2 powi (- 16) \<le> to_double (to_double (of_int (now - t)) / 1000) / 60"
      by simp
    then have "of_int 1310721 * 2 powi (- 16) \<le> diffMinutes now t"
      unfolding diffMinutes_def by (intro to_double_ge) simp_all
    with inside show False
      by simp
  qed
qed

lemma to_double_int: "\<bar>m\<bar> < 2 ^ 53 \<Longrightarrow> to_double (of_int m) = of_int m"
  using to_double_exact [of m 0] by simp

section \<open>The sunset evaluation\<close>

lemma window_in_milliseconds:
  "(- 5 \<le> diffMinutes now t \<and> diffMinutes now t \<le> 20)
     = (- 300000 \<le> now - t \<and> now - t \<le> 1200000)"
  by (simp only: diffMinutes_lower diffMinutes_upper)

lemma window_of_exact_quotient:
  "(- 5 \<le> (of_int k :: rat) / 60000 \<and> (of_int k :: rat) / 60000 \<le> 20)
     = (- 300000 \<le> k \<and> k \<le> 1200000)"
proof -
  have "(- 5 \<le> (of_int k :: rat) / 60000) = ((of_int (- 300000) :: rat) \<le> of_int k)"
    by (simp add: pos_le_divide_eq)
  then have lo: "(- 5 \<le> (of_int k :: rat) / 60000) = (- 300000 \<le> k)"
    by (simp only: of_int_le_iff)
  have "((of_int k :: rat) / 60000 \<le> 20) = ((of_int k :: rat) \<le> of_int 1200000)"
    by (simp add: pos_divide_le_eq)
  then have hi: "((of_int k :: rat) / 60000 \<le> 20) = (k \<le> 1200000)"
    by (simp only: of_int_le_iff)
  show ?thesis
    unfolding lo hi ..
qed

lemma checkSunset_not_ok:
  assumes "solar w (getDenverDate (clock s)) = Inr sd" and "status sd \<noteq> ''OK''"
  shows "checkSunsetAndTurnOn w s =
           (Inr (SunsetError ''Failed to fetch sunset''),
            say SunsetFetchFailed (fetch w (SolarQuery (getDenverDate (clock s))) s))"
  using assms by (simp add: checkSunsetAndTurnOn_def Let_def)

lemma checkSunset_evaluated:
  assumes "solar w (getDenverDate (clock s)) = Inr sd" and "status sd = ''OK''"
    and "sunset sd = Some t"
    and "now = clock s + int (latency w (SolarQuery (getDenverDate (clock s))))"
    and "s2 = say (SunsetInfo (getDenverDate (clock s)) t now (diffMinutes now t))
                (fetch w (SolarQuery (getDenverDate (clock s))) s)"
  shows "checkSunsetAndTurnOn w s =
     (if - 5 \<le> diffMinutes now t \<and> diffMinutes now t \<le> 20
      then (case controlAllLights w True s2 of
              (Inl err, s3) \<Rightarrow> (Inl err, s3)
            | (Inr u, s3) \<Rightarrow> (Inr (Triggered t (diffMinutes now t)), say LightsOnAtSunset s3))
      else (Inr (NotTriggered t (diffMinutes now t) (getDenverDate (clock s))
                   ''Not sunset time yet''), s2))"
proof -
  have now: "clock (fetch w (SolarQuery (getDenverDate (clock s))) s) = now"
    by (simp add: assms(4) clock_fetch)
  show ?thesis
    unfolding checkSunsetAndTurnOn_def Let_def now assms(5)
    using assms(1-3) by simp
qed

text \<open>
  Claim C1. When the solar service answers \<^verbatim>\<open>OK\<close> with a valid sunset, an evaluation
  that returns has \<^verbatim>\<open>triggered = true\<close> exactly when the \<open>diffMinutes\<close> it computes for
  the \<open>now\<close> read after the solar answer lies in the closed interval from -5 to 20. That
  is the case exactly when \<open>now - sunset\<close> is between -300000 and 1200000 milliseconds,
  which is when the exact quotient \<open>(now - sunset) / 60000\<close> lies in the interval. The
  evaluation returns unless the window holds and the listing of the devices throws.
\<close>

theorem triggered_iff_in_closed_window:
  assumes "solar w (getDenverDate (clock s)) = Inr sd" and "status sd = ''OK''"
    and "sunset sd = Some t"
    and "now = clock s + int (latency w (SolarQuery (getDenverDate (clock s))))"
  shows "(case fst (checkSunsetAndTurnOn w s) of
            Inr r \<Rightarrow> triggered r = Some (- 5 \<le> diffMinutes now t \<and> diffMinutes now t \<le> 20)
          | Inl err \<Rightarrow> (- 5 \<le> diffMinutes now t \<and> diffMinutes now t \<le> 20)
                     \<and> directory w = Inl err)
       \<and> ((- 5 \<le> diffMinutes now t \<and> diffMinutes now t \<le> 20)
            = (- 300000 \<le> now - t \<and> now - t \<le> 1200000))
       \<and> ((- 5 \<le> diffMinutes now t \<and> diffMinutes now t \<le> 20)
            = (- 5 \<le> (of_int (now - t) :: rat) / 60000
               \<and> (of_int (now - t) :: rat) / 60000 \<le> 20))"
proof -
  define s2 where "s2 = say (SunsetInfo (getDenverDate (clock s)) t now (diffMinutes now t))
                          (fetch w (SolarQuery (getDenverDate (clock s))) s)"
  note run = checkSunset_evaluated [OF assms s2_def]
  have res: "fst (controlAllLights w True s2)
               = (case directory w of Inl err \<Rightarrow> Inl err | Inr dd \<Rightarrow> Inr JUndefined)"
    by (rule controlAllLights_result)
  have "case fst (checkSunsetAndTurnOn w s) of
            Inr r \<Rightarrow> triggered r = Some (- 5 \<le> diffMinutes now t \<and> diffMinutes now t \<le> 20)
          | Inl err \<Rightarrow> (- 5 \<le> diffMinutes now t \<and> diffMinutes now t \<le> 20)
                     \<and> directory w = Inl err"
  proof (cases "- 5 \<le> diffMinutes now t \<and> diffMinutes now t \<le> 20")
    case False
    then show ?thesis
      by (auto simp: run)
  next
    case True
    show ?thesis
    proof (cases "controlAllLights w True s2")
      case (Pair a s3)
      then show ?thesis
        using True res
        by (cases a; cases "directory w") (simp_all add: run)
    qed
  qed
  moreover have "(- 5 \<le> diffMinutes now t \<and> diffMinutes now t \<le> 20)
            = (- 5 \<le> (of_int (now - t) :: rat) / 60000
               \<and> (of_int (now - t) :: rat) / 60000 \<le> 20)"
    by (simp only: window_in_milliseconds window_of_exact_quotient)
  ultimately show ?thesis
    using window_in_milliseconds [of now t] by blast
qed

text \<open>
  Claim C6. When the solar service answers with a status other than \<^verbatim>\<open>OK\<close>, the
  evaluation returns the object \<^verbatim>\<open>{error: 'Failed to fetch sunset'}\<close>, also through the
  \<^verbatim>\<open>/sunset\<close> endpoint, and the solar query is the only request it makes: no device
  is listed or controlled, neither by the evaluation nor by a tick that runs it.
\<close>

theorem solar_failure_dispatches_nothing:
  assumes "solar w (getDenverDate (clock s)) = Inr sd" and "status sd \<noteq> ''OK''"
  shows "fst (checkSunsetAndTurnOn w s) = Inr (SunsetError ''Failed to fetch sunset'')
       \<and> requests (snd (checkSunsetAndTurnOn w s))
           = requests s @ [SolarQuery (getDenverDate (clock s))]
       \<and> fst (fetch_endpoint w ''/sunset'' s)
           = Inr (SunsetJson (SunsetError ''Failed to fetch sunset''))
       \<and> requests (snd (fetch_endpoint w ''/sunset'' s))
           = requests s @ [SolarQuery (getDenverDate (clock s))]
       \<and> (getUTCHours (clock s) \<noteq> 8 \<longrightarrow>
            filter is_control (requests (snd (scheduled w s))) = filter is_control (requests s))"
proof -
  note run = checkSunset_not_ok [OF assms]
  have "filter is_control (requests (snd (scheduled w s))) = filter is_control (requests s)"
    if "getUTCHours (clock s) \<noteq> 8"
    using that by (simp add: scheduled_def Let_def run)
  then show ?thesis
    by (simp add: run fetch_endpoint_def)
qed


section \<open>The scheduler\<close>

lemma evaluation_requests:
  "case fst (checkSunsetAndTurnOn w s) of
     Inr r \<Rightarrow>
       (if triggered r = Some True
        then \<exists>dd. directory w = Inr dd
               \<and> requests (snd (checkSunsetAndTurnOn w s)) =
                   requests s @ SolarQuery (getDenverDate (clock s)) # ListDevices #
                     map (\<lambda>d. DeviceControl d 1) (data_or_empty dd)
        else requests (snd (checkSunsetAndTurnOn w s)) =
               requests s @ [SolarQuery (getDenverDate (clock s))])
   | Inl err \<Rightarrow>
       filter is_control (requests (snd (checkSunsetAndTurnOn w s)))
         = filter is_control (requests s)"
  by (auto simp: checkSunsetAndTurnOn_def controlAllLights_def Let_def control_loop_requests
           split: sum.splits option.splits)

lemma evening_hours:
  "(getUTCHours t \<ge> 22 \<or> getUTCHours t \<le> 2) = (getUTCHours t \<in> {22, 23, 0, 1, 2})"
  using getUTCHours_range [of t] by auto

lemma requests_start [simp]: "requests (start t) = []"
  by (simp add: requests_def start_def)

lemma clock_start [simp]: "clock (start t) = t"
  by (simp add: start_def)

text \<open>
  Claim C2. A tick at UTC hour 8 lists the devices and sends each of them one power
  request with value 0, and nothing else (no solar query). A tick at an hour in
  \<open>{22, 23, 0, 1, 2}\<close> does what the sunset evaluation does: when that reports
  \<^verbatim>\<open>triggered = true\<close>, every device was sent one power request with value 1, and
  otherwise no control request was made. A tick at any other hour makes no request and
  changes nothing.
\<close>

theorem tick_action_by_hour:
  "(getUTCHours t = 8 \<longrightarrow>
      requests (snd (scheduled w (start t))) =
        ListDevices # (case directory w of
                         Inl err \<Rightarrow> []
                       | Inr dd \<Rightarrow> map (\<lambda>d. DeviceControl d 0) (data_or_empty dd))
      \<and> filter is_solar (requests (snd (scheduled w (start t)))) = [])
   \<and> (getUTCHours t \<in> {22, 23, 0, 1, 2} \<longrightarrow>
        snd (scheduled w (start t)) = snd (checkSunsetAndTurnOn w (start t))
        \<and> (case fst (checkSunsetAndTurnOn w (start t)) of
             Inr r \<Rightarrow>
               (if triggered r = Some True
                then \<exists>dd. directory w = Inr dd
                       \<and> requests (snd (scheduled w (start t))) =
                           SolarQuery (getDenverDate t) # ListDevices #
                             map (\<lambda>d. DeviceControl d 1) (data_or_empty dd)
                else requests (snd (scheduled w (start t))) = [SolarQuery (getDenverDate t)])
           | Inl err \<Rightarrow> filter is_control (requests (snd (scheduled w (start t)))) = []))
   \<and> (getUTCHours t \<notin> {8, 22, 23, 0, 1, 2} \<longrightarrow>
        scheduled w (start t) = (Inr JUndefined, start t))"
proof -
  have off: "requests (snd (scheduled w (start t))) =
        ListDevices # (case directory w of
                         Inl err \<Rightarrow> []
                       | Inr dd \<Rightarrow> map (\<lambda>d. DeviceControl d 0) (data_or_empty dd))"
    if "getUTCHours t = 8"
  proof (cases "controlAllLights w False (start t)")
    case (Pair a s1)
    then show ?thesis
      using that controlAllLights_requests [of w False "start t"]
      by (cases a) (simp_all add: scheduled_def)
  qed
  have same: "snd (scheduled w (start t)) = snd (checkSunsetAndTurnOn w (start t))"
    if "getUTCHours t \<in> {22, 23, 0, 1, 2}"
  proof (cases "checkSunsetAndTurnOn w (start t)")
    case (Pair a s1)
    then show ?thesis
      using that by (cases a) (auto simp: scheduled_def)
  qed
  have quiet: "filter is_solar (requests (snd (scheduled w (start t)))) = []"
    if "getUTCHours t = 8"
    unfolding off [OF that] by (simp add: filter_map comp_def split: sum.splits)
  have idle: "scheduled w (start t) = (Inr JUndefined, start t)"
    if "getUTCHours t \<notin> {8, 22, 23, 0, 1, 2}"
    using that evening_hours [of t] by (simp add: scheduled_def)
  note evaluated = evaluation_requests [of w "start t",
      unfolded requests_start clock_start append_Nil filter.simps]
  have evening: "snd (scheduled w (start t)) = snd (checkSunsetAndTurnOn w (start t))
        \<and> (case fst (checkSunsetAndTurnOn w (start t)) of
             Inr r \<Rightarrow>
               (if triggered r = Some True
                then \<exists>dd. directory w = Inr dd
                       \<and> requests (snd (scheduled w (start t))) =
                           SolarQuery (getDenverDate t) # ListDevices #
                             map (\<lambda>d. DeviceControl d 1) (data_or_empty dd)
                else requests (snd (scheduled w (start t))) = [SolarQuery (getDenverDate t)])
           | Inl err \<Rightarrow> filter is_control (requests (snd (scheduled w (start t)))) = [])"
    if "getUTCHours t \<in> {22, 23, 0, 1, 2}"
    unfolding same [OF that] using evaluated by simp
  from off quiet evening idle show ?thesis
    by blast
qed

section \<open>The status report\<close>

lemma getDeviceStatus_listed:
  assumes "directory w = Inr dd"
  shows "getDeviceStatus w s =
           (Report (map (device_entry w) (data_or_empty dd))
              (joined (clock s + int (latency w ListDevices))
                 (state_calls w (clock s + int (latency w ListDevices)) (data_or_empty dd))),
            \<lparr>clock = joined (clock s + int (latency w ListDevices))
                       (state_calls w (clock s + int (latency w ListDevices)) (data_or_empty dd)),
             calls = calls s @ \<lparr>request = ListDevices, issued = clock s,
                                settled = clock s + int (latency w ListDevices)\<rparr>
                       # state_calls w (clock s + int (latency w ListDevices)) (data_or_empty dd),
             console = console s\<rparr>)"
  using assms by (simp add: getDeviceStatus_def Let_def fetch_def)

lemma getDeviceStatus_unlisted:
  assumes "directory w = Inl err"
  shows "getDeviceStatus w s =
           (ReportError (message err) (clock s + int (latency w ListDevices)),
            fetch w ListDevices s)"
  using assms by (simp add: getDeviceStatus_def Let_def clock_fetch)

text \<open>
  Claim C7. When the device list can be fetched, the status report succeeds with one
  entry per device of the roster, in order: the entry of a device whose state query
  throws carries the error message and no decoded field, the entry of any other device
  is its decoded status. When the listing itself throws, the result is the single
  top-level error object, and no state is queried.
\<close>

theorem status_isolates_device_failures:
  "(directory w = Inr dd \<longrightarrow>
      (\<exists>entries ts.
          fst (getDeviceStatus w s) = Report entries ts
          \<and> length entries = length (data_or_empty dd)
          \<and> (\<forall>i < length entries.
                case device_state w (data_or_empty dd ! i) of
                  Inl err \<Rightarrow>
                    entries ! i = StatusError (deviceName (data_or_empty dd ! i))
                                    (sku (data_or_empty dd ! i)) (message err)
                    \<and> error_of (entries ! i) = Some (message err)
                    \<and> power_of (entries ! i) = None \<and> brightness_of (entries ! i) = None
                    \<and> color_of (entries ! i) = None \<and> scene_of (entries ! i) = None
                | Inr caps \<Rightarrow>
                    entries ! i = decode (coerce w) (data_or_empty dd ! i)
                                    (case caps of None \<Rightarrow> [] | Some cs \<Rightarrow> cs)
                    \<and> error_of (entries ! i) = None)))
   \<and> (directory w = Inl err \<longrightarrow>
        (\<exists>ts. fst (getDeviceStatus w s) = ReportError (message err) ts)
        \<and> requests (snd (getDeviceStatus w s)) = requests s @ [ListDevices])"
proof -
  let ?entry_ok = "\<lambda>d e. case device_state w d of
                  Inl err \<Rightarrow>
                    e = StatusError (deviceName d) (sku d) (message err)
                    \<and> error_of e = Some (message err)
                    \<and> power_of e = None \<and> brightness_of e = None
                    \<and> color_of e = None \<and> scene_of e = None
                | Inr caps \<Rightarrow>
                    e = decode (coerce w) d (case caps of None \<Rightarrow> [] | Some cs \<Rightarrow> cs)
                    \<and> error_of e = None"
  let ?roster = "data_or_empty dd"
  have entry: "?entry_ok d (device_entry w d)" for d
    by (simp add: device_entry_def decode_def Let_def split: sum.splits)
  have each: "\<forall>i < length (map (device_entry w) ?roster).
                ?entry_ok (?roster ! i) (map (device_entry w) ?roster ! i)"
  proof (intro allI impI)
    fix i
    assume "i < length (map (device_entry w) ?roster)"
    then have nth: "map (device_entry w) ?roster ! i = device_entry w (?roster ! i)"
      by simp
    show "?entry_ok (?roster ! i) (map (device_entry w) ?roster ! i)"
      unfolding nth by (rule entry)
  qed
  have listed: "\<exists>entries ts.
          fst (getDeviceStatus w s) = Report entries ts
          \<and> length entries = length ?roster
          \<and> (\<forall>i < length entries. ?entry_ok (?roster ! i) (entries ! i))"
    if "directory w = Inr dd"
  proof (intro exI conjI)
    show "fst (getDeviceStatus w s) = Report (map (device_entry w) ?roster)
            (joined (clock s + int (latency w ListDevices))
               (state_calls w (clock s + int (latency w ListDevices)) ?roster))"
      unfolding getDeviceStatus_listed [OF that] by simp
    show "length (map (device_entry w) ?roster) = length ?roster"
      by simp
    show "\<forall>i < length (map (device_entry w) ?roster).
            ?entry_ok (?roster ! i) (map (device_entry w) ?roster ! i)"
      by (rule each)
  qed
  have unlisted: "(\<exists>ts. fst (getDeviceStatus w s) = ReportError (message err) ts)
        \<and> requests (snd (getDeviceStatus w s)) = requests s @ [ListDevices]"
    if "directory w = Inl err"
    unfolding getDeviceStatus_unlisted [OF that] by simp
  from listed unlisted show ?thesis
    by blast
qed

text \<open>
  Claim C8. When the body of the device listing has no \<^verbatim>\<open>data\<close>, the roster is the
  empty list and nothing is raised: the status report succeeds with no entries, and the
  dispatcher completes after the listing with the line \<^verbatim>\<open>Found 0 devices\<close>, as do
  the \<^verbatim>\<open>/on\<close> and \<^verbatim>\<open>/off\<close> endpoints and the lights-off tick.
\<close>

theorem missing_device_array_is_empty_roster:
  assumes "directory w = Inr None"
  shows "data_or_empty None = []
       \<and> (\<exists>ts. fst (getDeviceStatus w s) = Report [] ts)
       \<and> requests (snd (getDeviceStatus w s)) = requests s @ [ListDevices]
       \<and> fst (controlAllLights w turnOn s) = Inr JUndefined
       \<and> requests (snd (controlAllLights w turnOn s)) = requests s @ [ListDevices]
       \<and> console (snd (controlAllLights w turnOn s)) = console s @ [Found 0]
       \<and> fst (fetch_endpoint w ''/on'' s) = Inr (Text ''Lights ON'')
       \<and> fst (fetch_endpoint w ''/off'' s) = Inr (Text ''Lights OFF'')
       \<and> (\<exists>ts. fst (fetch_endpoint w ''/status'' s) = Inr (StatusJson (Report [] ts)))
       \<and> (getUTCHours (clock s) = 8 \<longrightarrow> fst (scheduled w s) = Inr JUndefined)"
proof -
  have empty: "data_or_empty None = []"
    by (simp add: data_or_empty_def)
  have report: "(\<exists>ts. fst (getDeviceStatus w s) = Report [] ts)
       \<and> requests (snd (getDeviceStatus w s)) = requests s @ [ListDevices]"
    unfolding getDeviceStatus_listed [OF assms] empty
    by (simp add: requests_def state_calls_def)
  have run: "controlAllLights w b s' = (Inr JUndefined, say (Found 0) (fetch w ListDevices s'))"
    for b s'
    using assms by (simp add: controlAllLights_def Let_def empty)
  have tick: "getUTCHours (clock s) = 8 \<longrightarrow> fst (scheduled w s) = Inr JUndefined"
    by (simp add: scheduled_def Let_def run)
  have endpoint: "\<exists>ts. fst (fetch_endpoint w ''/status'' s) = Inr (StatusJson (Report [] ts))"
    using report by (auto simp: fetch_endpoint_def split: prod.splits)
  from empty report tick endpoint show ?thesis
    by (simp add: run fetch_endpoint_def)
qed



section \<open>The timing of the requests\<close>

lemma request_in_turn: "map request (in_turn w t rs) = rs"
  by (induction rs arbitrary: t) simp_all

lemma back_to_back_in_turn: "back_to_back t (in_turn w t rs)"
  by (induction rs arbitrary: t) simp_all

lemma settled_in_turn:
  "c \<in> set (in_turn w t rs) \<Longrightarrow> settled c = issued c + int (latency w (request c))"
  by (induction rs arbitrary: t) auto

lemma control_loop_calls:
  "calls (control_loop w b ds s) =
     calls s @ in_turn w (clock s) (map (\<lambda>d. DeviceControl d (if b then 1 else 0)) ds)"
  by (induction ds arbitrary: s)
     (auto simp: Let_def calls_fetch clock_fetch split: option.splits)

lemma controlAllLights_calls:
  assumes "directory w = Inr dd"
  shows "calls (snd (controlAllLights w b s)) =
           calls s @ \<lparr>request = ListDevices, issued = clock s,
                      settled = clock s + int (latency w ListDevices)\<rparr>
             # in_turn w (clock s + int (latency w ListDevices))
                 (map (\<lambda>d. DeviceControl d (if b then 1 else 0)) (data_or_empty dd))"
  using assms
  by (simp add: controlAllLights_def Let_def control_loop_calls calls_fetch clock_fetch)

lemma joined_upper: "c \<in> set cs \<Longrightarrow> settled c \<le> joined t cs"
proof -
  assume "c \<in> set cs"
  then have "settled c \<in> set (t # map settled cs)"
    by simp
  then have "settled c \<le> Max (set (t # map settled cs))"
    by (intro Max_ge) simp_all
  then show ?thesis
    by (simp only: joined_def Max.set_eq_fold)
qed

text \<open>
  Claim C9, as amended. The status report issues all its state queries at one instant,
  the instant at which the listing has settled, and resumes only when the last of them
  has settled. \<^verbatim>\<open>controlAllLights\<close> issues its control requests one at a time, in the
  order of the roster: each is issued at the instant at which the one before it settled.
\<close>

theorem status_queries_together_controls_in_turn:
  assumes "directory w = Inr dd" and "t1 = clock s + int (latency w ListDevices)"
  shows "(\<exists>cs. calls (snd (getDeviceStatus w s)) =
                 calls s @ \<lparr>request = ListDevices, issued = clock s, settled = t1\<rparr> # cs
             \<and> map request cs = map DeviceState (data_or_empty dd)
             \<and> (\<forall>c \<in> set cs. issued c = t1
                     \<and> settled c = t1 + int (latency w (request c))
                     \<and> settled c \<le> clock (snd (getDeviceStatus w s))))
       \<and> (\<exists>cs. calls (snd (controlAllLights w turnOn s)) =
                 calls s @ \<lparr>request = ListDevices, issued = clock s, settled = t1\<rparr> # cs
             \<and> map request cs =
                 map (\<lambda>d. DeviceControl d (if turnOn then 1 else 0)) (data_or_empty dd)
             \<and> back_to_back t1 cs
             \<and> (\<forall>c \<in> set cs. settled c = issued c + int (latency w (request c))))"
proof -
  let ?qs = "state_calls w t1 (data_or_empty dd)"
  let ?cs = "in_turn w t1 (map (\<lambda>d. DeviceControl d (if turnOn then 1 else 0)) (data_or_empty dd))"
  have status: "calls (snd (getDeviceStatus w s)) =
                 calls s @ \<lparr>request = ListDevices, issued = clock s, settled = t1\<rparr> # ?qs"
    and joined: "clock (snd (getDeviceStatus w s)) = joined t1 ?qs"
    unfolding getDeviceStatus_listed [OF assms(1)] assms(2) by simp_all
  have "map request ?qs = map DeviceState (data_or_empty dd)"
    by (simp add: state_calls_def comp_def)
  moreover have "\<forall>c \<in> set ?qs. issued c = t1
                     \<and> settled c = t1 + int (latency w (request c))
                     \<and> settled c \<le> clock (snd (getDeviceStatus w s))"
    unfolding joined using joined_upper [of _ ?qs t1]
    by (auto simp: state_calls_def)
  ultimately have together: "\<exists>cs. calls (snd (getDeviceStatus w s)) =
                 calls s @ \<lparr>request = ListDevices, issued = clock s, settled = t1\<rparr> # cs
             \<and> map request cs = map DeviceState (data_or_empty dd)
             \<and> (\<forall>c \<in> set cs. issued c = t1
                     \<and> settled c = t1 + int (latency w (request c))
                     \<and> settled c \<le> clock (snd (getDeviceStatus w s)))"
    using status by blast
  have "calls (snd (controlAllLights w turnOn s)) =
                 calls s @ \<lparr>request = ListDevices, issued = clock s, settled = t1\<rparr> # ?cs"
    unfolding controlAllLights_calls [OF assms(1)] assms(2) by simp
  moreover have "map request ?cs =
                 map (\<lambda>d. DeviceControl d (if turnOn then 1 else 0)) (data_or_empty dd)"
    by (rule request_in_turn)
  moreover have "back_to_back t1 ?cs"
    by (rule back_to_back_in_turn)
  moreover have "\<forall>c \<in> set ?cs. settled c = issued c + int (latency w (request c))"
    using settled_in_turn by blast
  ultimately have in_turn: "\<exists>cs. calls (snd (controlAllLights w turnOn s)) =
                 calls s @ \<lparr>request = ListDevices, issued = clock s, settled = t1\<rparr> # cs
             \<and> map request cs =
                 map (\<lambda>d. DeviceControl d (if turnOn then 1 else 0)) (data_or_empty dd)
             \<and> back_to_back t1 cs
             \<and> (\<forall>c \<in> set cs. settled c = issued c + int (latency w (request c)))"
    by blast
  from together in_turn show ?thesis
    by blast
qed

section \<open>The household, evaluated\<close>

lemmas household_defs = home_def no_sunset_def unlisted_def unreachable_def porch_def lamp_def
  lamp_caps_def cap_def dusk_def

lemmas run_defs = checkSunsetAndTurnOn_def controlAllLights_def getDeviceStatus_def scheduled_def
  fetch_endpoint_def fetch_def say_def start_def requests_def data_or_empty_def Let_def
  getDenverDate_def getUTCHours_def state_calls_def joined_def device_entry_def

lemmas decode_defs = decode_def state_value_def rgb_of_def ToInt32_def js_trunc_def
  nullish_else_def or_else_def

text \<open>
  What line 69 computes five, twenty, 5.01, 20.01 and two minutes from the sunset. The two
  fractions are the doubles printed as \<^verbatim>\<open>-5.010000000000001\<close> and
  \<^verbatim>\<open>20.009999999999998\<close>.
\<close>

lemma diff_values:
  "diffMinutes 1717293300000 1717293600000 = - 5"
  "diffMinutes 1717294800000 1717293600000 = 20"
  "diffMinutes 1717293299400 1717293600000 = - (5640758533281547 / 1125899906842624)"
  "diffMinutes 1717294800600 1717293600000 = 2816157141990113 / 140737488355328"
  "diffMinutes 1717293480000 1717293600000 = - 2"
  by code_simp+

text \<open>
  Claim C4 on the lamp, whose color \<open>0xFF8000\<close> has the channels 255, 128 and 0.
\<close>

theorem color_channels_round_trip_witness:
  "(0::int) \<le> 16744448 \<and> (16744448::int) \<le> 0xFFFFFF
   \<and> find (\<lambda>c. cap_instance c = JStr ''colorRgb'') lamp_caps
       = Some (cap ''devices.capabilities.color_setting'' ''colorRgb'' (Some (JNum 16744448)))
   \<and> color_of (decode (coerce home) lamp lamp_caps) = Some (Some (Rgb 255 128 0))
   \<and> push_bit 16 255 OR push_bit 8 128 OR 0 = (16744448::int)
   \<and> pack_rgb (Rgb 255 128 0) = 16744448
   \<and> find (\<lambda>c. cap_instance c = JStr ''colorRgb'')
         [cap ''devices.capabilities.on_off'' ''powerSwitch'' (Some (JNum 1))] = None
   \<and> color_of (decode (coerce home) lamp
         [cap ''devices.capabilities.on_off'' ''powerSwitch'' (Some (JNum 1))]) = Some None"
proof -
  have lo: "(0::int) \<le> 16744448" and hi: "(16744448::int) \<le> 0xFFFFFF"
    by simp_all
  have channels: "drop_bit 16 (16744448::int) AND 255 = 255"
    "drop_bit 8 (16744448::int) AND 255 = 128" "(16744448::int) AND 255 = 0"
    by (simp_all add: drop_bit_eq_div)
  have found: "find (\<lambda>c. cap_instance c = JStr ''colorRgb'') lamp_caps
       = Some (cap ''devices.capabilities.color_setting'' ''colorRgb'' (Some (JNum 16744448)))"
    by (simp add: household_defs)
  have missing: "find (\<lambda>c. cap_instance c = JStr ''colorRgb'')
         [cap ''devices.capabilities.on_off'' ''powerSwitch'' (Some (JNum 1))] = None"
    by (simp add: household_defs)
  have reported: "cap_state (cap ''devices.capabilities.color_setting'' ''colorRgb''
                     (Some (JNum 16744448))) = Some (JNum (of_int 16744448))"
    by (simp add: cap_def)
  from color_channels_round_trip [OF lo hi, of lamp_caps
      "cap ''devices.capabilities.color_setting'' ''colorRgb'' (Some (JNum 16744448))"
      "coerce home" lamp "[cap ''devices.capabilities.on_off'' ''powerSwitch'' (Some (JNum 1))]"]
  show ?thesis
    using found missing reported by (simp add: channels rgb_of_def ToInt32_def js_trunc_def signed_take_bit_int_eq_self)
qed

text \<open>
  Claim C1 at the ends of the window and just outside: the clock is read 200
  milliseconds after the start, at 5 minutes before the sunset, 20 minutes after it,
  5.01 minutes before and 20.01 minutes after; and two minutes before the sunset, where
  both lights are sent the power request.
\<close>

theorem triggered_iff_in_closed_window_witness:
  "solar home (getDenverDate (clock (start (dusk - 300200))))
     = Inr \<lparr>status = ''OK'', sunset = Some dusk\<rparr>
   \<and> dusk - 300000
       = clock (start (dusk - 300200))
         + int (latency home (SolarQuery (getDenverDate (clock (start (dusk - 300200))))))
   \<and> fst (checkSunsetAndTurnOn home (start (dusk - 300200))) = Inr (Triggered dusk (- 5))
   \<and> fst (checkSunsetAndTurnOn home (start (dusk + 1199800))) = Inr (Triggered dusk 20)
   \<and> fst (checkSunsetAndTurnOn home (start (dusk - 300800)))
       = Inr (NotTriggered dusk (- (5640758533281547 / 1125899906842624)) 19875
                ''Not sunset time yet'')
   \<and> fst (checkSunsetAndTurnOn home (start (dusk + 1200400)))
       = Inr (NotTriggered dusk (2816157141990113 / 140737488355328) 19875
                ''Not sunset time yet'')
   \<and> fst (checkSunsetAndTurnOn home (start (dusk - 120200))) = Inr (Triggered dusk (- 2))
   \<and> requests (snd (checkSunsetAndTurnOn home (start (dusk - 120200))))
       = [SolarQuery 19875, ListDevices, DeviceControl porch 1, DeviceControl lamp 1]"
proof -
  have answer: "solar home (getDenverDate (clock (start t)))
                  = Inr \<lparr>status = ''OK'', sunset = Some dusk\<rparr>" for t
    by (simp add: home_def)
  have ok: "status \<lparr>status = ''OK'', sunset = Some dusk\<rparr> = ''OK''"
    and valid: "sunset \<lparr>status = ''OK'', sunset = Some dusk\<rparr> = Some dusk"
    by simp_all
  have now: "t + 200 = clock (start t)
               + int (latency home (SolarQuery (getDenverDate (clock (start t)))))" for t
    by (simp add: home_def start_def)
  note at = triggered_iff_in_closed_window [OF answer ok valid now]
  from at [of "dusk - 300200"] at [of "dusk + 1199800"] at [of "dusk - 300800"]
    at [of "dusk + 1200400"] at [of "dusk - 120200"]
  show ?thesis
    by (simp add: run_defs household_defs diff_values)
qed

text \<open>
  Claim C2 at four ticks of the household: at 08:00 UTC both lights get one request with
  value 0 and no solar query is made; at 01:58 UTC, two minutes before the sunset, both
  get one with value 1; at 02:20 UTC, just after the window, only the solar query is
  made; at 12:00 UTC nothing happens.
\<close>

theorem tick_action_by_hour_witness:
  "getUTCHours 1717315200000 = 8
   \<and> requests (snd (scheduled home (start 1717315200000)))
       = [ListDevices, DeviceControl porch 0, DeviceControl lamp 0]
   \<and> filter is_solar (requests (snd (scheduled home (start 1717315200000)))) = []
   \<and> getUTCHours (dusk - 120200) \<in> {22, 23, 0, 1, 2}
   \<and> fst (checkSunsetAndTurnOn home (start (dusk - 120200))) = Inr (Triggered dusk (- 2))
   \<and> requests (snd (scheduled home (start (dusk - 120200))))
       = [SolarQuery 19875, ListDevices, DeviceControl porch 1, DeviceControl lamp 1]
   \<and> getUTCHours (dusk + 1200400) \<in> {22, 23, 0, 1, 2}
   \<and> requests (snd (scheduled home (start (dusk + 1200400)))) = [SolarQuery 19875]
   \<and> getUTCHours 1717329600000 \<notin> {8, 22, 23, 0, 1, 2}
   \<and> scheduled home (start 1717329600000) = (Inr JUndefined, start 1717329600000)"
  using tick_action_by_hour [of 1717315200000 home] tick_action_by_hour [of "dusk - 120200" home]
    tick_action_by_hour [of "dusk + 1200400" home] tick_action_by_hour [of 1717329600000 home]
  by (simp add: run_defs household_defs diff_values)

text \<open>
  Claim C3 as it was stated asks for a returned sequence of outcomes, as long as the
  roster, in which the failing device is marked. With the two lights of the household,
  of which the porch light rejects its control request, the dispatcher returns
  \<^verbatim>\<open>undefined\<close>: there is no sequence, and nothing in the returned value tells the two
  devices apart.
\<close>

theorem dispatch_returns_undefined:
  "directory home = Inr (Some [porch, lamp])
   \<and> control home porch 0 = Some (TypeError ''fetch failed'')
   \<and> control home lamp 0 = None
   \<and> fst (controlAllLights home False (start 0)) = Inr JUndefined"
  by (simp add: run_defs household_defs)

text \<open>
  Claim C3, as amended, in the household: the porch light's request rejects, the lamp is
  still sent its request, and the console has one line for each.
\<close>

theorem dispatch_reaches_every_device_witness:
  "directory home = Inr (Some [porch, lamp])
   \<and> fst (controlAllLights home False (start 0)) = Inr JUndefined
   \<and> requests (snd (controlAllLights home False (start 0)))
       = [ListDevices, DeviceControl porch 0, DeviceControl lamp 0]
   \<and> console (snd (controlAllLights home False (start 0)))
       = [Found 2, FailedToControl ''Porch'' (TypeError ''fetch failed''), Switched False ''Lamp'']"
proof -
  have listed: "directory home = Inr (Some [porch, lamp])"
    by (simp add: home_def)
  from dispatch_reaches_every_device [OF listed, of False "start 0"] listed
  show ?thesis
    by (simp add: data_or_empty_def start_def requests_def home_def porch_def lamp_def)
qed

text \<open>
  Claim C5 on the lamp, which reports the number 1 and is on; a reported \<^verbatim>\<open>true\<close> or
  \<^verbatim>\<open>"1"\<close> is truthy but not 1, and the power is off, as it is without the capability.
\<close>

theorem power_on_iff_literally_one_witness:
  "find (\<lambda>c. cap_type c = JStr ''devices.capabilities.on_off'') lamp_caps
     = Some (cap ''devices.capabilities.on_off'' ''powerSwitch'' (Some (JNum 1)))
   \<and> power_of (decode (coerce home) lamp lamp_caps) = Some ON
   \<and> power_of (decode (coerce home) lamp
        [cap ''devices.capabilities.on_off'' ''powerSwitch'' (Some (JBool True))]) = Some OFF
   \<and> power_of (decode (coerce home) lamp
        [cap ''devices.capabilities.on_off'' ''powerSwitch'' (Some (JStr ''1''))]) = Some OFF
   \<and> power_of (decode (coerce home) lamp
        [cap ''devices.capabilities.range'' ''brightness'' (Some (JNum 1))]) = Some OFF
   \<and> power_of (decode (coerce home) lamp []) = Some OFF"
  using power_on_iff_literally_one [of "coerce home" lamp lamp_caps]
    power_on_iff_literally_one [of "coerce home" lamp
      "[cap ''devices.capabilities.on_off'' ''powerSwitch'' (Some (JBool True))]"]
    power_on_iff_literally_one [of "coerce home" lamp
      "[cap ''devices.capabilities.on_off'' ''powerSwitch'' (Some (JStr ''1''))]"]
    power_on_iff_literally_one [of "coerce home" lamp
      "[cap ''devices.capabilities.range'' ''brightness'' (Some (JNum 1))]"]
    power_on_iff_literally_one [of "coerce home" lamp "[]"]
  by (simp add: household_defs power_of_decode state_value_def)

text \<open>
  Claim C6 where the solar service answers \<^verbatim>\<open>INVALID_DATE\<close>: the evaluation, the
  endpoint and the evening tick make the solar query and nothing else.
\<close>

theorem solar_failure_dispatches_nothing_witness:
  "solar no_sunset (getDenverDate (clock (start (dusk - 120200))))
     = Inr \<lparr>status = ''INVALID_DATE'', sunset = None\<rparr>
   \<and> status \<lparr>status = ''INVALID_DATE'', sunset = None\<rparr> \<noteq> ''OK''
   \<and> fst (checkSunsetAndTurnOn no_sunset (start (dusk - 120200)))
       = Inr (SunsetError ''Failed to fetch sunset'')
   \<and> requests (snd (checkSunsetAndTurnOn no_sunset (start (dusk - 120200))))
       = [SolarQuery 19875]
   \<and> fst (fetch_endpoint no_sunset ''/sunset'' (start (dusk - 120200)))
       = Inr (SunsetJson (SunsetError ''Failed to fetch sunset''))
   \<and> getUTCHours (clock (start (dusk - 120200))) = 1
   \<and> requests (snd (scheduled no_sunset (start (dusk - 120200)))) = [SolarQuery 19875]"
proof -
  have answer: "solar no_sunset (getDenverDate (clock (start (dusk - 120200))))
     = Inr \<lparr>status = ''INVALID_DATE'', sunset = None\<rparr>"
    by (simp add: no_sunset_def)
  have failed: "status \<lparr>status = ''INVALID_DATE'', sunset = None\<rparr> \<noteq> ''OK''"
    by simp
  from solar_failure_dispatches_nothing [OF answer failed] answer
  show ?thesis
    by (simp add: run_defs household_defs)
qed

text \<open>
  Claim C7 in the household: the porch light's state query throws and the lamp answers,
  so the report has the error entry and the lamp's decoded status; where the listing
  throws, the report is the top-level error.
\<close>

theorem status_isolates_device_failures_witness:
  "directory home = Inr (Some [porch, lamp])
   \<and> device_state home porch = Inl (TypeError ''fetch failed'')
   \<and> device_state home lamp = Inr (Some lamp_caps)
   \<and> fst (getDeviceStatus home (start 0))
       = Report [StatusError ''Porch'' ''H6008'' ''fetch failed'',
                 Status ''Lamp'' ''H6076'' ON (JNum 80) (Some (Rgb 255 128 0)) JNull] 450
   \<and> directory unreachable = Inl (TypeError ''fetch failed'')
   \<and> fst (getDeviceStatus unreachable (start 0)) = ReportError ''fetch failed'' 150
   \<and> requests (snd (getDeviceStatus unreachable (start 0))) = [ListDevices]"
proof -
  have channels: "drop_bit 16 (16744448::int) AND 255 = 255"
    "drop_bit 8 (16744448::int) AND 255 = 128" "(16744448::int) AND 255 = 0"
    by (simp_all add: drop_bit_eq_div)
  from status_isolates_device_failures [of home "Some [porch, lamp]" "start 0"]
    status_isolates_device_failures [of unreachable _ "start 0" "TypeError ''fetch failed''"]
  show ?thesis
    by (simp add: run_defs household_defs decode_defs channels signed_take_bit_int_eq_self)
qed

text \<open>
  Claim C8 where the listing answers without \<^verbatim>\<open>data\<close>.
\<close>

theorem missing_device_array_is_empty_roster_witness:
  "directory unlisted = Inr None
   \<and> fst (getDeviceStatus unlisted (start 0)) = Report [] 150
   \<and> requests (snd (getDeviceStatus unlisted (start 0))) = [ListDevices]
   \<and> fst (controlAllLights unlisted True (start 0)) = Inr JUndefined
   \<and> requests (snd (controlAllLights unlisted True (start 0))) = [ListDevices]
   \<and> console (snd (controlAllLights unlisted True (start 0))) = [Found 0]
   \<and> fst (fetch_endpoint unlisted ''/on'' (start 0)) = Inr (Text ''Lights ON'')"
proof -
  have bare: "directory unlisted = Inr None"
    by (simp add: unlisted_def)
  from missing_device_array_is_empty_roster [OF bare, of "start 0" True] bare
  show ?thesis
    by (simp add: run_defs household_defs)
qed

text \<open>
  Claim C9 as it was stated has the dispatcher's requests in flight together, none
  waiting for another. In the household the porch light's control request takes 400
  milliseconds: it is issued at 150 and settles at 550, and only then is the lamp's
  request issued.
\<close>

theorem dispatch_awaits_each_request:
  "calls (snd (controlAllLights home True (start 0)))
     = [\<lparr>request = ListDevices, issued = 0, settled = 150\<rparr>,
        \<lparr>request = DeviceControl porch 1, issued = 150, settled = 550\<rparr>,
        \<lparr>request = DeviceControl lamp 1, issued = 550, settled = 650\<rparr>]"
  by (simp add: run_defs household_defs)

text \<open>
  Claim C9, as amended, in the household: the two state queries are both issued at 150,
  and the report resumes at 450, when the slower one has settled; the two control
  requests follow each other.
\<close>

theorem status_queries_together_controls_in_turn_witness:
  "directory home = Inr (Some [porch, lamp])
   \<and> (150::int) = clock (start 0) + int (latency home ListDevices)
   \<and> calls (snd (getDeviceStatus home (start 0)))
       = [\<lparr>request = ListDevices, issued = 0, settled = 150\<rparr>,
          \<lparr>request = DeviceState porch, issued = 150, settled = 450\<rparr>,
          \<lparr>request = DeviceState lamp, issued = 150, settled = 250\<rparr>]
   \<and> clock (snd (getDeviceStatus home (start 0))) = 450
   \<and> calls (snd (controlAllLights home False (start 0)))
       = [\<lparr>request = ListDevices, issued = 0, settled = 150\<rparr>,
          \<lparr>request = DeviceControl porch 0, issued = 150, settled = 550\<rparr>,
          \<lparr>request = DeviceControl lamp 0, issued = 550, settled = 650\<rparr>]
   \<and> back_to_back 150
         [\<lparr>request = DeviceControl porch 0, issued = 150, settled = 550\<rparr>,
          \<lparr>request = DeviceControl lamp 0, issued = 550, settled = 650\<rparr>]"
proof -
  have listed: "directory home = Inr (Some [porch, lamp])"
    by (simp add: home_def)
  have t1: "(150::int) = clock (start 0) + int (latency home ListDevices)"
    by (simp add: home_def start_def)
  have queries: "calls (snd (getDeviceStatus home (start 0)))
       = [\<lparr>request = ListDevices, issued = 0, settled = 150\<rparr>,
          \<lparr>request = DeviceState porch, issued = 150, settled = 450\<rparr>,
          \<lparr>request = DeviceState lamp, issued = 150, settled = 250\<rparr>]"
    and resumed: "clock (snd (getDeviceStatus home (start 0))) = 450"
    and controls: "calls (snd (controlAllLights home False (start 0)))
       = [\<lparr>request = ListDevices, issued = 0, settled = 150\<rparr>,
          \<lparr>request = DeviceControl porch 0, issued = 150, settled = 550\<rparr>,
          \<lparr>request = DeviceControl lamp 0, issued = 550, settled = 650\<rparr>]"
    by (simp_all add: run_defs household_defs)
  from status_queries_together_controls_in_turn [OF listed t1, of False]
  obtain cs where
    "calls (snd (controlAllLights home False (start 0)))
       = calls (start 0) @ \<lparr>request = ListDevices, issued = clock (start 0), settled = 150\<rparr> # cs"
    and chain: "back_to_back 150 cs"
    by blast
  then have "cs = [\<lparr>request = DeviceControl porch 0, issued = 150, settled = 550\<rparr>,
                   \<lparr>request = DeviceControl lamp 0, issued = 550, settled = 650\<rparr>]"
    unfolding controls by (simp add: start_def)
  with chain have "back_to_back 150
         [\<lparr>request = DeviceControl porch 0, issued = 150, settled = 550\<rparr>,
          \<lparr>request = DeviceControl lamp 0, issued = 550, settled = 650\<rparr>]"
    by simp
  with listed t1 queries resumed controls show ?thesis
    by (intro conjI)
qed

text \<open>
  Claim C10 on four payloads: the color reported as \<^verbatim>\<open>null\<close> next to a scene reported as
  0, no color state at all, the color value \<^verbatim>\<open>undefined\<close>, and the color 0.
\<close>

theorem color_absent_only_when_nullish_witness:
  "find (\<lambda>c. cap_instance c = JStr ''colorRgb'')
       [cap ''devices.capabilities.color_setting'' ''colorRgb'' (Some JNull),
        cap ''devices.capabilities.dynamic_scene'' ''lightScene'' (Some (JNum 0))]
     = Some (cap ''devices.capabilities.color_setting'' ''colorRgb'' (Some JNull))
   \<and> color_of (decode (coerce home) lamp
       [cap ''devices.capabilities.color_setting'' ''colorRgb'' (Some JNull),
        cap ''devices.capabilities.dynamic_scene'' ''lightScene'' (Some (JNum 0))]) = Some None
   \<and> \<not> truthy (JNum 0)
   \<and> scene_of (decode (coerce home) lamp
       [cap ''devices.capabilities.color_setting'' ''colorRgb'' (Some JNull),
        cap ''devices.capabilities.dynamic_scene'' ''lightScene'' (Some (JNum 0))]) = Some JNull
   \<and> color_of (decode (coerce home) lamp
       [cap ''devices.capabilities.color_setting'' ''colorRgb'' None]) = Some None
   \<and> color_of (decode (coerce home) lamp
       [cap ''devices.capabilities.color_setting'' ''colorRgb'' (Some JUndefined)]) = Some None
   \<and> color_of (decode (coerce home) lamp
       [cap ''devices.capabilities.color_setting'' ''colorRgb'' (Some (JNum 0))])
       = Some (Some (Rgb 0 0 0))"
  using color_absent_only_when_nullish [of
      "[cap ''devices.capabilities.color_setting'' ''colorRgb'' (Some JNull),
        cap ''devices.capabilities.dynamic_scene'' ''lightScene'' (Some (JNum 0))]"
      "cap ''devices.capabilities.color_setting'' ''colorRgb'' (Some JNull)"
      "coerce home" lamp
      "cap ''devices.capabilities.dynamic_scene'' ''lightScene'' (Some (JNum 0))" "JNum 0"]
    color_absent_only_when_nullish [of
      "[cap ''devices.capabilities.color_setting'' ''colorRgb'' None]"
      "cap ''devices.capabilities.color_setting'' ''colorRgb'' None" "coerce home" lamp]
    color_absent_only_when_nullish [of
      "[cap ''devices.capabilities.color_setting'' ''colorRgb'' (Some JUndefined)]"
      "cap ''devices.capabilities.color_setting'' ''colorRgb'' (Some JUndefined)"
      "coerce home" lamp]
    color_absent_only_when_nullish [of
      "[cap ''devices.capabilities.color_setting'' ''colorRgb'' (Some (JNum 0))]"
      "cap ''devices.capabilities.color_setting'' ''colorRgb'' (Some (JNum 0))"
      "coerce home" lamp]
  by (simp add: cap_def)

end
